theory Spec2Isabelle
  imports Complex_Main
begin

section \<open>NumPy arrays\<close>

text \<open>
  The notebook computes on NumPy arrays of Python floats. An array is modelled by its
  shape together with its elements as nested lists; a float is modelled by a real number,
  so every sum and product below is exact. Sizes, strides, paddings and indices are
  natural numbers. A call either returns its result together with the new state of the
  object it mutates, or raises: the exceptions the code can raise are values of
  \<open>pyerror\<close>, and a call that raises returns the exception alone. \<open>ShapeError\<close> and
  \<open>StateError\<close> are names that no line of the notebook defines or raises.
\<close>

datatype pyerror =
  ValueError | ZeroDivisionError | AttributeError | TypeError | IndexError
  | AssertionError | ShapeError | StateError

record arr3 =
  dims3 :: "nat \<times> nat \<times> nat"
  data3 :: "real list list list"

record arr4 =
  dims4 :: "nat \<times> nat \<times> nat \<times> nat"
  data4 :: "real list list list list"

definition at3 :: "arr3 \<Rightarrow> nat \<Rightarrow> nat \<Rightarrow> nat \<Rightarrow> real" where
  "at3 a d r q = data3 a ! d ! r ! q"

definition at4 :: "arr4 \<Rightarrow> nat \<Rightarrow> nat \<Rightarrow> nat \<Rightarrow> nat \<Rightarrow> real" where
  "at4 a c d r q = data4 a ! c ! d ! r ! q"

text \<open>The array of a given shape whose element at an index is given by a function.\<close>

definition tab3 :: "nat \<times> nat \<times> nat \<Rightarrow> (nat \<Rightarrow> nat \<Rightarrow> nat \<Rightarrow> real) \<Rightarrow> arr3" where
  "tab3 s f = (case s of (D, H, Wd) \<Rightarrow>
     \<lparr>dims3 = (D, H, Wd),
      data3 = map (\<lambda>d. map (\<lambda>r. map (\<lambda>q. f d r q) [0..<Wd]) [0..<H]) [0..<D]\<rparr>)"

definition tab4 ::
  "nat \<times> nat \<times> nat \<times> nat \<Rightarrow> (nat \<Rightarrow> nat \<Rightarrow> nat \<Rightarrow> nat \<Rightarrow> real) \<Rightarrow> arr4" where
  "tab4 s f = (case s of (C, D, H, Wd) \<Rightarrow>
     \<lparr>dims4 = (C, D, H, Wd),
      data4 = map (\<lambda>c. map (\<lambda>d. map (\<lambda>r. map (\<lambda>q. f c d r q) [0..<Wd]) [0..<H]) [0..<D])
                [0..<C]\<rparr>)"

text \<open>\<^verbatim>\<open>np.zeros(shape)\<close>.\<close>

definition np_zeros3 :: "nat \<times> nat \<times> nat \<Rightarrow> arr3" where
  "np_zeros3 s = tab3 s (\<lambda>d r q. 0)"

definition np_zeros4 :: "nat \<times> nat \<times> nat \<times> nat \<Rightarrow> arr4" where
  "np_zeros4 s = tab4 s (\<lambda>c d r q. 0)"

text \<open>
  \<^verbatim>\<open>np.pad(x, ((0,0),(p,p),(p,p)), 'constant')\<close>: \<open>p\<close> rows and columns of zeros on
  each spatial side, the channels untouched.
\<close>

definition np_pad :: "nat \<Rightarrow> arr3 \<Rightarrow> arr3" where
  "np_pad p x = (case dims3 x of (D, H, Wd) \<Rightarrow>
     tab3 (D, H + 2 * p, Wd + 2 * p)
       (\<lambda>d r q. if p \<le> r \<and> r < H + p \<and> p \<le> q \<and> q < Wd + p
                 then at3 x d (r - p) (q - p) else 0))"

text \<open>
  A slice \<^verbatim>\<open>xs[a:b]\<close> with \<open>0 \<le> a\<close> and \<open>0 \<le> b\<close> on an axis of length \<open>n\<close>:
  Python clips both bounds to \<open>n\<close>, so the slice has \<open>min b n - min a n\<close> elements
  (none when that is negative) and never raises.
\<close>

definition slice_len :: "nat \<Rightarrow> nat \<Rightarrow> nat \<Rightarrow> nat" where
  "slice_len a b n = min b n - min a n"

text \<open>\<^verbatim>\<open>x[:, r0:r1, q0:q1]\<close>.\<close>

definition slice3 :: "arr3 \<Rightarrow> nat \<Rightarrow> nat \<Rightarrow> nat \<Rightarrow> nat \<Rightarrow> arr3" where
  "slice3 x r0 r1 q0 q1 = (case dims3 x of (D, H, Wd) \<Rightarrow>
     tab3 (D, slice_len r0 r1 H, slice_len q0 q1 Wd) (\<lambda>d r q. at3 x d (r0 + r) (q0 + q)))"

text \<open>
  Broadcasting. Two operand axes of lengths \<open>n\<close> and \<open>m\<close> combine when they are equal
  or one of them is 1 (\<open>bdim\<close>); an operand axis of length \<open>m\<close> fits an in-place target
  axis of length \<open>n\<close> when \<open>m = n\<close> or \<open>m = 1\<close> (\<open>bto\<close>); an axis of length 1 is read
  at index 0 whatever the index (\<open>bidx\<close>). Every other combination raises
  \<open>ValueError\<close>.
\<close>

definition bdim :: "nat \<Rightarrow> nat \<Rightarrow> nat option" where
  "bdim n m = (if n = m then Some n else if n = 1 then Some m
               else if m = 1 then Some n else None)"

definition bto :: "nat \<Rightarrow> nat \<Rightarrow> bool" where
  "bto m n = (m = n \<or> m = 1)"

definition bidx :: "nat \<Rightarrow> nat \<Rightarrow> nat" where
  "bidx n i = (if n = 1 then 0 else i)"

text \<open>\<^verbatim>\<open>w * x_slice\<close> for a 4-dimensional \<open>w\<close> and a 3-dimensional \<open>x_slice\<close>.\<close>

definition np_mul43 :: "arr4 \<Rightarrow> arr3 \<Rightarrow> pyerror + arr4" where
  "np_mul43 w xs = (case dims4 w of (C, D, K1, K2) \<Rightarrow> case dims3 xs of (D', h, v) \<Rightarrow>
     (case (bdim D D', bdim K1 h, bdim K2 v) of
        (Some bd, Some bh, Some bv) \<Rightarrow>
          Inr (tab4 (C, bd, bh, bv)
                 (\<lambda>c d r q. at4 w c (bidx D d) (bidx K1 r) (bidx K2 q)
                            * at3 xs (bidx D' d) (bidx h r) (bidx v q)))
      | _ \<Rightarrow> Inl ValueError))"

text \<open>\<^verbatim>\<open>np.sum(a, (1,2,3))\<close>: one number per index of the first axis.\<close>

definition np_sum123 :: "arr4 \<Rightarrow> real list" where
  "np_sum123 a = (case dims4 a of (C, D, H, Wd) \<Rightarrow>
     map (\<lambda>c. sum_list (map (\<lambda>d. sum_list (map (\<lambda>r. sum_list (map (\<lambda>q. at4 a c d r q)
            [0..<Wd])) [0..<H])) [0..<D])) [0..<C])"

text \<open>\<^verbatim>\<open>output[:,i,j] += v\<close> for a vector \<open>v\<close>, with \<open>i\<close> and \<open>j\<close> inside the array.\<close>

definition iadd_col :: "arr3 \<Rightarrow> nat \<Rightarrow> nat \<Rightarrow> real list \<Rightarrow> pyerror + arr3" where
  "iadd_col out i j v = (case dims3 out of (C, H, Wd) \<Rightarrow>
     if i < H \<and> j < Wd then
       (if bto (length v) C
        then Inr (tab3 (C, H, Wd)
               (\<lambda>c r q. if r = i \<and> q = j then at3 out c r q + v ! bidx (length v) c
                         else at3 out c r q))
        else Inl ValueError)
     else Inl IndexError)"

text \<open>
  A \<^verbatim>\<open>for\<close> loop over a list of indices, threading the state and stopping at the
  first exception.
\<close>

fun for_range :: "nat list \<Rightarrow> (nat \<Rightarrow> 's \<Rightarrow> pyerror + 's) \<Rightarrow> 's \<Rightarrow> pyerror + 's" where
  "for_range [] body s = Inr s"
| "for_range (i # is) body s =
     (case body i s of Inl e \<Rightarrow> Inl e | Inr s' \<Rightarrow> for_range is body s')"

section \<open>The convolution layer\<close>

record convLayer =
  kernelsize :: nat
  stride :: nat
  pad :: nat
  in_channels :: nat
  out_channels :: nat
  W :: arr4
  cache :: "arr3 option"
  gradW :: "arr4 option"

text \<open>
  The constructor, with the weights it draws at random given as an argument.
\<close>

definition convLayer_init :: "nat \<Rightarrow> nat \<Rightarrow> nat \<Rightarrow> nat \<Rightarrow> nat \<Rightarrow>
    (nat \<Rightarrow> nat \<Rightarrow> nat \<Rightarrow> nat \<Rightarrow> real) \<Rightarrow> convLayer" where
  "convLayer_init k inputDim outDim s p w =
     \<lparr>kernelsize = k, stride = s, pad = p, in_channels = inputDim, out_channels = outDim,
      W = tab4 (outDim, inputDim, k, k) w, cache = None, gradW = None\<rparr>"

text \<open>The body of the two loops of \<^verbatim>\<open>__call__\<close> at output position \<open>(i, j)\<close>.\<close>

definition conv_pixel :: "convLayer \<Rightarrow> arr3 \<Rightarrow> nat \<Rightarrow> nat \<Rightarrow> arr3 \<Rightarrow> pyerror + arr3" where
  "conv_pixel L x i j output =
     (let s = stride L; k = kernelsize L;
          x_slice = slice3 x (i * s) (i * s + k) (j * s) (j * s + k)
      in case np_mul43 (W L) x_slice of
           Inl e \<Rightarrow> Inl e
         | Inr wx \<Rightarrow> iadd_col output i j (np_sum123 wx))"

text \<open>
  \<^verbatim>\<open>convLayer.__call__\<close>. The output size is computed on Python's integers:
  \<^verbatim>\<open>//\<close> raises on a zero stride and \<^verbatim>\<open>np.zeros\<close> on a negative size. The cache is
  assigned last, so it is unchanged when an exception leaves the loops.
\<close>

definition convLayer_call :: "convLayer \<Rightarrow> arr3 \<Rightarrow> pyerror + (arr3 \<times> convLayer)" where
  "convLayer_call L x0 = (case dims3 x0 of (D, x_width, x_height) \<Rightarrow>
     let x = np_pad (pad L) x0 in
     if stride L = 0 then Inl ZeroDivisionError
     else
       let output_size =
             (int x_width - int (kernelsize L) + 2 * int (pad L)) div int (stride L) + 1
       in if output_size < 0 then Inl ValueError
          else
            let n = nat output_size;
                output = np_zeros3 (out_channels L, n, n)
            in case for_range [0..<n] (\<lambda>i. for_range [0..<n] (\<lambda>j. conv_pixel L x i j))
                      output of
                 Inl e \<Rightarrow> Inl e
               | Inr output' \<Rightarrow> Inr (output', L\<lparr>cache := Some x\<rparr>))"

text \<open>The sum of products that one output element is claimed to hold.\<close>

definition conv_sum :: "convLayer \<Rightarrow> nat \<Rightarrow> arr3 \<Rightarrow> nat \<Rightarrow> nat \<Rightarrow> nat \<Rightarrow> real" where
  "conv_sum L D x c i j =
     (\<Sum>d<D. \<Sum>di<kernelsize L. \<Sum>dj<kernelsize L.
        at4 (W L) c d di dj * at3 x d (i * stride L + di) (j * stride L + dj))"

text \<open>
  \<^verbatim>\<open>delta[:,h,w]\<close>, the vector over the channels at one position inside the array.
\<close>

definition col3 :: "arr3 \<Rightarrow> nat \<Rightarrow> nat \<Rightarrow> real list" where
  "col3 a h w = (case dims3 a of (C, H, Wd) \<Rightarrow> map (\<lambda>c. at3 a c h w) [0..<C])"

text \<open>
  \<^verbatim>\<open>w * v.reshape(C,-1,1,1)\<close> for a 4-dimensional \<open>w\<close> and a vector \<open>v\<close> of length
  \<open>C\<close>. The reshape cannot infer the \<^verbatim>\<open>-1\<close> of an empty vector and raises.
\<close>

definition np_mul4_col :: "arr4 \<Rightarrow> real list \<Rightarrow> pyerror + arr4" where
  "np_mul4_col w v = (case dims4 w of (Cw, D, K1, K2) \<Rightarrow>
     if length v = 0 then Inl ValueError
     else (case bdim Cw (length v) of
        None \<Rightarrow> Inl ValueError
      | Some bc \<Rightarrow>
          Inr (tab4 (bc, D, K1, K2)
                 (\<lambda>c d r q. at4 w (bidx Cw c) d r q * v ! bidx (length v) c))))"

text \<open>\<^verbatim>\<open>np.sum(a, axis=0)\<close>.\<close>

definition np_sum0 :: "arr4 \<Rightarrow> arr3" where
  "np_sum0 a = (case dims4 a of (C, D, H, Wd) \<Rightarrow>
     tab3 (D, H, Wd) (\<lambda>d r q. sum_list (map (\<lambda>c. at4 a c d r q) [0..<C])))"

text \<open>
  \<^verbatim>\<open>a[:, r0:r1, q0:q1] += b\<close>: \<open>b\<close> is broadcast to the shape of the (clipped)
  slice of \<open>a\<close> and added in place.
\<close>

definition islice_add :: "arr3 \<Rightarrow> nat \<Rightarrow> nat \<Rightarrow> nat \<Rightarrow> nat \<Rightarrow> arr3 \<Rightarrow> pyerror + arr3" where
  "islice_add a r0 r1 q0 q1 b = (case dims3 a of (D, H, Wd) \<Rightarrow>
     case dims3 b of (D', h, v) \<Rightarrow>
       if bto D' D \<and> bto h (slice_len r0 r1 H) \<and> bto v (slice_len q0 q1 Wd)
       then Inr (tab3 (D, H, Wd)
              (\<lambda>d r q. if r0 \<le> r \<and> r < r0 + slice_len r0 r1 H \<and>
                           q0 \<le> q \<and> q < q0 + slice_len q0 q1 Wd
                        then at3 a d r q + at3 b (bidx D' d) (bidx h (r - r0)) (bidx v (q - q0))
                        else at3 a d r q))
       else Inl ValueError)"

text \<open>\<^verbatim>\<open>x_slice * v.reshape(C,-1,1,1)\<close> for a 3-dimensional \<open>x_slice\<close>.\<close>

definition np_mul3_col :: "arr3 \<Rightarrow> real list \<Rightarrow> pyerror + arr4" where
  "np_mul3_col xs v = (case dims3 xs of (D, h, w) \<Rightarrow>
     if length v = 0 then Inl ValueError
     else Inr (tab4 (length v, D, h, w) (\<lambda>c d r q. at3 xs d r q * v ! c)))"

text \<open>\<^verbatim>\<open>a += b\<close> on 4-dimensional arrays: \<open>b\<close> is broadcast to the shape of \<open>a\<close>.\<close>

definition iadd4 :: "arr4 \<Rightarrow> arr4 \<Rightarrow> pyerror + arr4" where
  "iadd4 a b = (case dims4 a of (C, D, H, Wd) \<Rightarrow> case dims4 b of (C', D', h, v) \<Rightarrow>
     if bto C' C \<and> bto D' D \<and> bto h H \<and> bto v Wd
     then Inr (tab4 (C, D, H, Wd)
            (\<lambda>c d r q. at4 a c d r q + at4 b (bidx C' c) (bidx D' d) (bidx h r) (bidx v q)))
     else Inl ValueError)"

text \<open>
  A slice bound on an axis of length \<open>n\<close>, as Python resolves it: a negative bound
  counts from the end, and every bound is clipped to \<open>0..n\<close>. The bound \<^verbatim>\<open>-0\<close> is
  \<open>0\<close>, the start of the axis.
\<close>

definition clip :: "int \<Rightarrow> nat \<Rightarrow> nat" where
  "clip i n = (if i < 0 then nat (max 0 (int n + i)) else min (nat i) n)"

text \<open>\<^verbatim>\<open>a[:, p:-p, p:-p]\<close>.\<close>

definition np_crop :: "nat \<Rightarrow> arr3 \<Rightarrow> arr3" where
  "np_crop p a = (case dims3 a of (D, H, Wd) \<Rightarrow>
     let r0 = clip (int p) H; r1 = clip (- int p) H;
         q0 = clip (int p) Wd; q1 = clip (- int p) Wd
     in tab3 (D, r1 - r0, q1 - q0) (\<lambda>d r q. at3 a d (r0 + r) (q0 + q)))"

text \<open>
  The body of the two loops of \<^verbatim>\<open>backward\<close> at output position \<open>(h, w)\<close>, on the
  pair of accumulators \<open>(dX, dW)\<close>.
\<close>

definition conv_back_pixel ::
  "convLayer \<Rightarrow> arr3 \<Rightarrow> arr3 \<Rightarrow> nat \<Rightarrow> nat \<Rightarrow> arr3 \<times> arr4 \<Rightarrow> pyerror + (arr3 \<times> arr4)" where
  "conv_back_pixel L x delta h w acc = (case acc of (dX, dW) \<Rightarrow>
     let s = stride L; k = kernelsize L; v = col3 delta h w
     in case np_mul4_col (W L) v of
          Inl e \<Rightarrow> Inl e
        | Inr dx \<Rightarrow>
           (case islice_add dX (h * s) (h * s + k) (w * s) (w * s + k) (np_sum0 dx) of
              Inl e \<Rightarrow> Inl e
            | Inr dX' \<Rightarrow>
               let x_slice = slice3 x (h * s) (h * s + k) (w * s) (w * s + k)
               in (case np_mul3_col x_slice v of
                     Inl e \<Rightarrow> Inl e
                   | Inr xd \<Rightarrow>
                      (case iadd4 dW xd of
                         Inl e \<Rightarrow> Inl e
                       | Inr dW' \<Rightarrow> Inr (dX', dW')))))"

text \<open>
  \<^verbatim>\<open>convLayer.backward\<close>. Before any forward call the cache is \<^verbatim>\<open>None\<close> and
  \<^verbatim>\<open>x.shape\<close> raises \<open>AttributeError\<close>. \<^verbatim>\<open>gradW\<close> is assigned after the loops.
\<close>

definition convLayer_backward :: "convLayer \<Rightarrow> arr3 \<Rightarrow> pyerror + (arr3 \<times> convLayer)" where
  "convLayer_backward L delta = (case dims3 delta of (C, H, Wd) \<Rightarrow>
     case cache L of
       None \<Rightarrow> Inl AttributeError
     | Some x \<Rightarrow>
        (case for_range [0..<H] (\<lambda>h. for_range [0..<Wd] (\<lambda>w. conv_back_pixel L x delta h w))
                (np_zeros3 (dims3 x), np_zeros4 (dims4 (W L))) of
           Inl e \<Rightarrow> Inl e
         | Inr (dX, dW) \<Rightarrow> Inr (np_crop (pad L) dX, L\<lparr>gradW := Some dW\<rparr>)))"

text \<open>
  What one output position \<open>(h, w)\<close> is claimed to add to the input-gradient at
  \<open>(d, r, q)\<close>: inside its receptive-field window the sum over the output channels of
  weight times delta, outside nothing.
\<close>

definition dx_term :: "convLayer \<Rightarrow> nat \<Rightarrow> arr3 \<Rightarrow> nat \<Rightarrow> nat \<Rightarrow> nat \<Rightarrow> nat \<Rightarrow> nat \<Rightarrow> real" where
  "dx_term L C delta h w d r q =
     (if h * stride L \<le> r \<and> r < h * stride L + kernelsize L \<and>
         w * stride L \<le> q \<and> q < w * stride L + kernelsize L
      then \<Sum>c<C. at4 (W L) c d (r - h * stride L) (q - w * stride L) * at3 delta c h w
      else 0)"

section \<open>The max-pooling layer\<close>

record MaxPool =
  mcache :: "arr3 option"

definition MaxPool_init :: MaxPool where
  "MaxPool_init = \<lparr>mcache = None\<rparr>"

text \<open>
  \<^verbatim>\<open>np.amax(x_slice, axis=(1,2))\<close>: the maximum of each channel. A reduction over an
  axis of length 0 raises \<open>ValueError\<close>.
\<close>

definition np_amax12 :: "arr3 \<Rightarrow> pyerror + real list" where
  "np_amax12 xs = (case dims3 xs of (D, h, w) \<Rightarrow>
     if h = 0 \<or> w = 0 then Inl ValueError
     else Inr (map (\<lambda>d. Max (set (concat (map (\<lambda>r. map (\<lambda>q. at3 xs d r q) [0..<w]) [0..<h]))))
                [0..<D]))"

text \<open>\<^verbatim>\<open>output[:,i,j] = m\<close> for a vector \<open>m\<close>.\<close>

definition set_col :: "arr3 \<Rightarrow> nat \<Rightarrow> nat \<Rightarrow> real list \<Rightarrow> pyerror + arr3" where
  "set_col out i j m = (case dims3 out of (C, H, Wd) \<Rightarrow>
     if i < H \<and> j < Wd then
       (if bto (length m) C
        then Inr (tab3 (C, H, Wd)
               (\<lambda>c r q. if r = i \<and> q = j then m ! bidx (length m) c else at3 out c r q))
        else Inl ValueError)
     else Inl IndexError)"

text \<open>
  \<^verbatim>\<open>np.where(x_slice == col.reshape(-1,1,1), np.ones((n,2,2)), np.zeros((n,2,2)))\<close>
  with \<open>n\<close> the length of \<open>col\<close>: the comparison is broadcast first, then its result
  against the two \<open>(n, 2, 2)\<close> arrays.
\<close>

definition np_where_eq :: "arr3 \<Rightarrow> real list \<Rightarrow> pyerror + arr3" where
  "np_where_eq xs col = (case dims3 xs of (D, h, w) \<Rightarrow>
     (case bdim D (length col) of
        None \<Rightarrow> Inl ValueError
      | Some dc \<Rightarrow>
         (case (bdim dc (length col), bdim h 2, bdim w 2) of
            (Some bd, Some bh, Some bw) \<Rightarrow>
              Inr (tab3 (bd, bh, bw)
                     (\<lambda>d r q. if at3 xs (bidx D d) (bidx h r) (bidx w q)
                                  = col ! bidx (length col) d
                               then 1 else 0))
          | _ \<Rightarrow> Inl ValueError)))"

text \<open>
  \<^verbatim>\<open>a[:, r0:r1, q0:q1] = b\<close>: \<open>b\<close> must be broadcastable to the shape of the
  (clipped) slice of \<open>a\<close>.
\<close>

definition islice_set :: "arr3 \<Rightarrow> nat \<Rightarrow> nat \<Rightarrow> nat \<Rightarrow> nat \<Rightarrow> arr3 \<Rightarrow> pyerror + arr3" where
  "islice_set a r0 r1 q0 q1 b = (case dims3 a of (D, H, Wd) \<Rightarrow>
     case dims3 b of (D', h, v) \<Rightarrow>
       if bto D' D \<and> bto h (slice_len r0 r1 H) \<and> bto v (slice_len q0 q1 Wd)
       then Inr (tab3 (D, H, Wd)
              (\<lambda>d r q. if r0 \<le> r \<and> r < r0 + slice_len r0 r1 H \<and>
                           q0 \<le> q \<and> q < q0 + slice_len q0 q1 Wd
                        then at3 b (bidx D' d) (bidx h (r - r0)) (bidx v (q - q0))
                        else at3 a d r q))
       else Inl ValueError)"

text \<open>
  The body of the two loops of \<^verbatim>\<open>MaxPool.__call__\<close> at window \<open>(i, j)\<close>, on the
  pair \<open>(output, cache)\<close>.
\<close>

definition maxpool_window ::
  "arr3 \<Rightarrow> nat \<Rightarrow> nat \<Rightarrow> arr3 \<times> arr3 \<Rightarrow> pyerror + (arr3 \<times> arr3)" where
  "maxpool_window x i j st = (case st of (output, c) \<Rightarrow>
     let x_slice = slice3 x (i * 2) (i * 2 + 2) (j * 2) (j * 2 + 2)
     in case np_amax12 x_slice of
          Inl e \<Rightarrow> Inl e
        | Inr m \<Rightarrow>
           (case set_col output i j m of
              Inl e \<Rightarrow> Inl e
            | Inr output' \<Rightarrow>
               (case np_where_eq x_slice (col3 output' i j) of
                  Inl e \<Rightarrow> Inl e
                | Inr idx_map \<Rightarrow>
                   (case islice_set c (i * 2) (i * 2 + 2) (j * 2) (j * 2 + 2) idx_map of
                      Inl e \<Rightarrow> Inl e
                    | Inr c' \<Rightarrow> Inr (output', c')))))"

text \<open>
  \<^verbatim>\<open>MaxPool.__call__\<close>. The cache is allocated first and filled in place by the
  loops; the model returns the layer's state only when the call returns.
\<close>

definition MaxPool_call :: "MaxPool \<Rightarrow> arr3 \<Rightarrow> pyerror + (arr3 \<times> MaxPool)" where
  "MaxPool_call M x = (case dims3 x of (D, H, Wd) \<Rightarrow>
     let c0 = np_zeros3 (D, H, Wd);
         output = np_zeros3 (D, (H + 1) div 2, (Wd + 1) div 2)
     in case for_range [0..<(H + 1) div 2]
               (\<lambda>i. for_range [0..<(Wd + 1) div 2] (\<lambda>j. maxpool_window x i j)) (output, c0) of
          Inl e \<Rightarrow> Inl e
        | Inr (output', c') \<Rightarrow> Inr (output', M\<lparr>mcache := Some c'\<rparr>))"

text \<open>
  \<^verbatim>\<open>a[:, r0:r1, q0:q1] *= v.reshape(-1,1,1)\<close> for a vector \<open>v\<close>: one factor per
  channel, multiplied in place into the (clipped) slice.
\<close>

definition islice_mul :: "arr3 \<Rightarrow> nat \<Rightarrow> nat \<Rightarrow> nat \<Rightarrow> nat \<Rightarrow> real list \<Rightarrow> pyerror + arr3" where
  "islice_mul a r0 r1 q0 q1 v = (case dims3 a of (D, H, Wd) \<Rightarrow>
     if bto (length v) D
     then Inr (tab3 (D, H, Wd)
            (\<lambda>d r q. if r0 \<le> r \<and> r < r0 + slice_len r0 r1 H \<and>
                         q0 \<le> q \<and> q < q0 + slice_len q0 q1 Wd
                      then at3 a d r q * v ! bidx (length v) d
                      else at3 a d r q))
     else Inl ValueError)"

text \<open>
  \<^verbatim>\<open>MaxPool.backward\<close>. The loops multiply into \<^verbatim>\<open>self.cache\<close> itself, and that
  array is what is returned. Before any forward call \<^verbatim>\<open>self.cache.shape\<close> raises
  \<open>AttributeError\<close>.
\<close>

definition MaxPool_backward :: "MaxPool \<Rightarrow> arr3 \<Rightarrow> pyerror + (arr3 \<times> MaxPool)" where
  "MaxPool_backward M d = (case mcache M of
       None \<Rightarrow> Inl AttributeError
     | Some c \<Rightarrow> (case dims3 d of (Dd, H, Wd) \<Rightarrow>
         (case for_range [0..<H]
                 (\<lambda>i. for_range [0..<Wd]
                    (\<lambda>j c. islice_mul c (i * 2) (i * 2 + 2) (j * 2) (j * 2 + 2) (col3 d i j)))
                 c of
            Inl e \<Rightarrow> Inl e
          | Inr c' \<Rightarrow> Inr (c', M\<lparr>mcache := Some c'\<rparr>))))"

text \<open>The maximum of the 2x2 window \<open>(i, j)\<close> of channel \<open>d\<close>.\<close>

definition win_max :: "arr3 \<Rightarrow> nat \<Rightarrow> nat \<Rightarrow> nat \<Rightarrow> real" where
  "win_max x d i j =
     max (max (at3 x d (2 * i) (2 * j)) (at3 x d (2 * i) (2 * j + 1)))
         (max (at3 x d (2 * i + 1) (2 * j)) (at3 x d (2 * i + 1) (2 * j + 1)))"

text \<open>The equality mask: 1 where an element equals the maximum of its window, else 0.\<close>

definition max_mask :: "arr3 \<Rightarrow> nat \<Rightarrow> nat \<Rightarrow> nat \<Rightarrow> real" where
  "max_mask x d r q = (if at3 x d r q = win_max x d (r div 2) (q div 2) then 1 else 0)"

section \<open>Activation and loss\<close>

text \<open>
  An elementwise operation on two 3-dimensional arrays, with NumPy's broadcasting of
  the two shapes.
\<close>

definition broadcast3 :: "(real \<Rightarrow> real \<Rightarrow> real) \<Rightarrow> arr3 \<Rightarrow> arr3 \<Rightarrow> pyerror + arr3" where
  "broadcast3 f a b = (case dims3 a of (D1, H1, W1) \<Rightarrow> case dims3 b of (D2, H2, W2) \<Rightarrow>
     (case (bdim D1 D2, bdim H1 H2, bdim W1 W2) of
        (Some bd, Some bh, Some bw) \<Rightarrow>
          Inr (tab3 (bd, bh, bw)
                 (\<lambda>d r q. f (at3 a (bidx D1 d) (bidx H1 r) (bidx W1 q))
                              (at3 b (bidx D2 d) (bidx H2 r) (bidx W2 q))))
      | _ \<Rightarrow> Inl ValueError))"

record ReLU =
  rcache :: "arr3 option"

text \<open>\<^verbatim>\<open>ReLU.__call__\<close>: \<^verbatim>\<open>np.maximum(x, 0.)\<close>, cached.\<close>

definition ReLU_call :: "ReLU \<Rightarrow> arr3 \<Rightarrow> arr3 \<times> ReLU" where
  "ReLU_call R x =
     (let y = tab3 (dims3 x) (\<lambda>d r q. max (at3 x d r q) 0) in (y, R\<lparr>rcache := Some y\<rparr>))"

text \<open>
  \<^verbatim>\<open>ReLU.backward\<close>: \<^verbatim>\<open>np.where(self.cache > 0, 1, 0) * y\<close>. With the cache
  \<^verbatim>\<open>None\<close> the comparison raises \<open>TypeError\<close>.
\<close>

definition ReLU_backward :: "ReLU \<Rightarrow> arr3 \<Rightarrow> pyerror + arr3" where
  "ReLU_backward R y = (case rcache R of
       None \<Rightarrow> Inl TypeError
     | Some c \<Rightarrow> broadcast3 (\<lambda>u v. (if u > 0 then 1 else 0) * v) c y)"

record l2_loss =
  lcache :: "arr3 option"

text \<open>\<^verbatim>\<open>np.sum(a)\<close> over all elements.\<close>

definition np_sum3 :: "arr3 \<Rightarrow> real" where
  "np_sum3 a = (case dims3 a of (D, H, Wd) \<Rightarrow>
     sum_list (map (\<lambda>d. sum_list (map (\<lambda>r. sum_list (map (\<lambda>q. at3 a d r q) [0..<Wd]))
       [0..<H])) [0..<D]))"

text \<open>
  \<^verbatim>\<open>l2_loss.__call__\<close>: caches \<^verbatim>\<open>(x-y)/784\<close> and returns
  \<^verbatim>\<open>np.sum(0.5*(x-y)**2)/784\<close>.
\<close>

definition l2_call :: "l2_loss \<Rightarrow> arr3 \<Rightarrow> arr3 \<Rightarrow> pyerror + (real \<times> l2_loss)" where
  "l2_call S x y = (case broadcast3 (\<lambda>u v. u - v) x y of
       Inl e \<Rightarrow> Inl e
     | Inr diff \<Rightarrow>
         Inr (np_sum3 (tab3 (dims3 diff) (\<lambda>d r q. 0.5 * (at3 diff d r q)\<^sup>2)) / 784,
              S\<lparr>lcache := Some (tab3 (dims3 diff) (\<lambda>d r q. at3 diff d r q / 784))\<rparr>))"

text \<open>\<^verbatim>\<open>l2_loss.backward\<close> returns the cache, \<^verbatim>\<open>None\<close> included.\<close>

definition l2_backward :: "l2_loss \<Rightarrow> arr3 option" where
  "l2_backward S = lcache S"

section \<open>The stacked model and the gradient check\<close>

text \<open>The six module-level layer objects of the notebook.\<close>

record model =
  conv1 :: convLayer
  conv2 :: convLayer
  maxpool :: MaxPool
  rl1 :: ReLU
  rl2 :: ReLU
  l2 :: l2_loss

definition model_forward :: "model \<Rightarrow> arr3 \<Rightarrow> pyerror + (arr3 \<times> model)" where
  "model_forward N x =
     (case convLayer_call (conv1 N) x of
        Inl e \<Rightarrow> Inl e
      | Inr (a1, c1) \<Rightarrow>
         (case ReLU_call (rl1 N) a1 of (a2, r1) \<Rightarrow>
            (case convLayer_call (conv2 N) a2 of
               Inl e \<Rightarrow> Inl e
             | Inr (a3, c2) \<Rightarrow>
                (case MaxPool_call (maxpool N) a3 of
                   Inl e \<Rightarrow> Inl e
                 | Inr (a4, mp) \<Rightarrow>
                    (case ReLU_call (rl2 N) a4 of (a5, r2) \<Rightarrow>
                       Inr (a5, N\<lparr>conv1 := c1, rl1 := r1, conv2 := c2, maxpool := mp,
                                  rl2 := r2\<rparr>))))))"

text \<open>
  \<^verbatim>\<open>model_backward\<close>. When the loss was never called its cache is \<^verbatim>\<open>None\<close> and
  the first multiplication raises \<open>TypeError\<close>.
\<close>

definition model_backward :: "model \<Rightarrow> pyerror + model" where
  "model_backward N = (case l2_backward (l2 N) of
       None \<Rightarrow> Inl TypeError
     | Some d0 \<Rightarrow>
        (case ReLU_backward (rl2 N) d0 of
           Inl e \<Rightarrow> Inl e
         | Inr d1 \<Rightarrow>
            (case MaxPool_backward (maxpool N) d1 of
               Inl e \<Rightarrow> Inl e
             | Inr (d2, mp) \<Rightarrow>
                (case convLayer_backward (conv2 N) d2 of
                   Inl e \<Rightarrow> Inl e
                 | Inr (d3, c2) \<Rightarrow>
                    (case ReLU_backward (rl1 N) d3 of
                       Inl e \<Rightarrow> Inl e
                     | Inr d4 \<Rightarrow>
                        (case convLayer_backward (conv1 N) d4 of
                           Inl e \<Rightarrow> Inl e
                         | Inr (d5, c1) \<Rightarrow>
                             Inr (N\<lparr>maxpool := mp, conv2 := c2, conv1 := c1\<rparr>)))))))"

text \<open>
  The layer the check works on: \<^verbatim>\<open>enumerate([conv1, conv2])\<close> gives \<open>l = 0\<close> for
  \<^verbatim>\<open>conv1\<close> and \<open>l = 1\<close> for \<^verbatim>\<open>conv2\<close>.
\<close>

definition get_layer :: "nat \<Rightarrow> model \<Rightarrow> convLayer" where
  "get_layer l N = (if l = 0 then conv1 N else conv2 N)"

definition set_layer :: "nat \<Rightarrow> convLayer \<Rightarrow> model \<Rightarrow> model" where
  "set_layer l L N = (if l = 0 then N\<lparr>conv1 := L\<rparr> else N\<lparr>conv2 := L\<rparr>)"

text \<open>Reading and assigning one element, \<^verbatim>\<open>a[c,d,i,j]\<close> and \<^verbatim>\<open>a[c,d,i,j] = v\<close>.\<close>

definition upd_at :: "nat \<Rightarrow> ('a \<Rightarrow> 'a) \<Rightarrow> 'a list \<Rightarrow> 'a list" where
  "upd_at i f xs = xs[i := f (xs ! i)]"

definition in4 :: "arr4 \<Rightarrow> nat \<Rightarrow> nat \<Rightarrow> nat \<Rightarrow> nat \<Rightarrow> bool" where
  "in4 a c d i j = (case dims4 a of (C, D, K1, K2) \<Rightarrow> c < C \<and> d < D \<and> i < K1 \<and> j < K2)"

definition getitem4 :: "arr4 \<Rightarrow> nat \<Rightarrow> nat \<Rightarrow> nat \<Rightarrow> nat \<Rightarrow> pyerror + real" where
  "getitem4 a c d i j = (if in4 a c d i j then Inr (at4 a c d i j) else Inl IndexError)"

definition setitem4 :: "arr4 \<Rightarrow> nat \<Rightarrow> nat \<Rightarrow> nat \<Rightarrow> nat \<Rightarrow> real \<Rightarrow> pyerror + arr4" where
  "setitem4 a c d i j v =
     (if in4 a c d i j
      then Inr (a\<lparr>data4 := upd_at c (upd_at d (upd_at i (\<lambda>row. row[j := v]))) (data4 a)\<rparr>)
      else Inl IndexError)"

text \<open>\<^verbatim>\<open>layer.W[c,d,i,j] = v\<close> for the layer \<open>l\<close> of the model.\<close>

definition set_weight :: "nat \<Rightarrow> nat \<Rightarrow> nat \<Rightarrow> nat \<Rightarrow> nat \<Rightarrow> real \<Rightarrow> model \<Rightarrow> pyerror + model" where
  "set_weight l c d i j v N =
     (case setitem4 (W (get_layer l N)) c d i j v of
        Inl e \<Rightarrow> Inl e
      | Inr w \<Rightarrow> Inr (set_layer l ((get_layer l N)\<lparr>W := w\<rparr>) N))"

text \<open>\<^verbatim>\<open>logits = model_forward(x)\<close> followed by \<^verbatim>\<open>l2(logits, y)\<close>.\<close>

definition forward_cost :: "model \<Rightarrow> arr3 \<Rightarrow> arr3 \<Rightarrow> pyerror + (real \<times> model)" where
  "forward_cost N x y = (case model_forward N x of
       Inl e \<Rightarrow> Inl e
     | Inr (logits, N1) \<Rightarrow>
        (case l2_call (l2 N1) logits y of
           Inl e \<Rightarrow> Inl e
         | Inr (cost, S) \<Rightarrow> Inr (cost, N1\<lparr>l2 := S\<rparr>)))"

definition epsilon :: real where
  "epsilon = 1 / 10 ^ 7"

text \<open>
  The first half of the body of the innermost loop of the gradient check: the weight
  is set to \<^verbatim>\<open>orig + epsilon\<close> and the cost evaluated, then to
  \<^verbatim>\<open>orig - epsilon\<close> and the cost evaluated, then assigned \<^verbatim>\<open>orig\<close> again. It returns
  the central difference and the state of the model.
\<close>

definition central_difference ::
  "nat \<Rightarrow> nat \<Rightarrow> nat \<Rightarrow> nat \<Rightarrow> nat \<Rightarrow> arr3 \<Rightarrow> arr3 \<Rightarrow> model \<Rightarrow> pyerror + (real \<times> model)" where
  "central_difference l c d i j x y N =
     (case getitem4 (W (get_layer l N)) c d i j of
        Inl e \<Rightarrow> Inl e
      | Inr orig \<Rightarrow>
     (case set_weight l c d i j (orig + epsilon) N of
        Inl e \<Rightarrow> Inl e
      | Inr N1 \<Rightarrow>
     (case forward_cost N1 x y of
        Inl e \<Rightarrow> Inl e
      | Inr (cost1, N2) \<Rightarrow>
     (case set_weight l c d i j (orig - epsilon) N2 of
        Inl e \<Rightarrow> Inl e
      | Inr N3 \<Rightarrow>
     (case forward_cost N3 x y of
        Inl e \<Rightarrow> Inl e
      | Inr (cost2, N4) \<Rightarrow>
     (case set_weight l c d i j orig N4 of
        Inl e \<Rightarrow> Inl e
      | Inr N5 \<Rightarrow> Inr ((cost1 - cost2) / (2 * epsilon), N5)))))))"

text \<open>
  The whole body of the innermost loop: the central difference, then one forward and
  one backward pass, and the assertion that the two gradients agree within
  \<^verbatim>\<open>epsilon\<close>.
\<close>

definition check_element ::
  "nat \<Rightarrow> nat \<Rightarrow> nat \<Rightarrow> nat \<Rightarrow> nat \<Rightarrow> arr3 \<Rightarrow> arr3 \<Rightarrow> model \<Rightarrow> pyerror + model" where
  "check_element l c d i j x y N =
     (case central_difference l c d i j x y N of
        Inl e \<Rightarrow> Inl e
      | Inr (gradient_approximation, N5) \<Rightarrow>
     (case forward_cost N5 x y of
        Inl e \<Rightarrow> Inl e
      | Inr (loss, N6) \<Rightarrow>
     (case model_backward N6 of
        Inl e \<Rightarrow> Inl e
      | Inr N7 \<Rightarrow>
     (case gradW (get_layer l N7) of
        None \<Rightarrow> Inl TypeError
      | Some g \<Rightarrow>
     (case getitem4 g c d i j of
        Inl e \<Rightarrow> Inl e
      | Inr gw \<Rightarrow>
         if \<bar>gradient_approximation - gw\<bar> \<le> epsilon then Inr N7
         else Inl AssertionError)))))"

text \<open>
  The five nested loops of the gradient check, over the two layers and over the shape
  of each layer's weights as it is when that layer's turn begins.
\<close>

definition gradient_check :: "arr3 \<Rightarrow> arr3 \<Rightarrow> model \<Rightarrow> pyerror + model" where
  "gradient_check x y N =
     for_range [0..<2] (\<lambda>l N.
       case dims4 (W (get_layer l N)) of (C, D, K1, K2) \<Rightarrow>
         for_range [0..<C] (\<lambda>c.
           for_range [0..<D] (\<lambda>d.
             for_range [0..<K1] (\<lambda>i.
               for_range [0..<K2] (\<lambda>j. check_element l c d i j x y)))) N) N"

section \<open>Properties\<close>

subsection \<open>Arrays and loops\<close>


lemma dims3_tab3 [simp]: "dims3 (tab3 s f) = s"
  by (cases s) (simp add: tab3_def)

lemma at3_tab3 [simp]:
  "d < D \<Longrightarrow> r < H \<Longrightarrow> q < Wd \<Longrightarrow> at3 (tab3 (D, H, Wd) f) d r q = f d r q"
  by (simp add: tab3_def at3_def)

lemma dims4_tab4 [simp]: "dims4 (tab4 s f) = s"
  by (cases s) (simp add: tab4_def)

lemma at4_tab4 [simp]:
  "c < C \<Longrightarrow> d < D \<Longrightarrow> r < H \<Longrightarrow> q < Wd \<Longrightarrow> at4 (tab4 (C, D, H, Wd) f) c d r q = f c d r q"
  by (simp add: tab4_def at4_def)

lemma sum_list_map_upt: "sum_list (map f [0..<n]) = (\<Sum>i<n. f i)"
  by (simp add: interv_sum_list_conv_sum_set_nat atLeast0LessThan)

lemma for_range_append:
  "for_range (xs @ ys) body s =
     (case for_range xs body s of Inl e \<Rightarrow> Inl e | Inr s' \<Rightarrow> for_range ys body s')"
  by (induction xs arbitrary: s) (auto split: sum.splits)

lemma for_range_upt:
  assumes "P 0 s"
    and "\<And>i t. i < n \<Longrightarrow> P i t \<Longrightarrow> \<exists>t'. body i t = Inr t' \<and> P (Suc i) t'"
  shows "\<exists>t. for_range [0..<n] body s = Inr t \<and> P n t"
  using assms(2)
proof (induction n)
  case 0
  then show ?case using assms(1) by simp
next
  case (Suc n)
  then obtain t where t: "for_range [0..<n] body s = Inr t" "P n t"
    by (metis less_Suc_eq)
  from Suc.prems[OF _ t(2)] obtain t' where "body n t = Inr t'" "P (Suc n) t'"
    by blast
  with t show ?case
    by (simp add: for_range_append)
qed

lemma bidx_less [simp]: "i < n \<Longrightarrow> bidx n i = i"
  by (auto simp: bidx_def)

lemma bdim_same [simp]: "bdim n n = Some n"
  by (simp add: bdim_def)

lemma slice_len_full: "a + k \<le> n \<Longrightarrow> slice_len a (a + k) n = k"
  by (simp add: slice_len_def)

lemma np_sum123_nth:
  assumes "dims4 a = (C, D, H, Wd)" and "c < C"
  shows "np_sum123 a ! c = (\<Sum>d<D. \<Sum>r<H. \<Sum>q<Wd. at4 a c d r q)"
  using assms by (simp add: np_sum123_def sum_list_map_upt)

lemma length_np_sum123: "dims4 a = (C, D, H, Wd) \<Longrightarrow> length (np_sum123 a) = C"
  by (simp add: np_sum123_def)

lemma conv_pixel_ok:
  assumes w: "dims4 (W L) = (C, D, kernelsize L, kernelsize L)"
    and x: "dims3 x = (D, Hp, Wp)"
    and fit: "i * stride L + kernelsize L \<le> Hp" "j * stride L + kernelsize L \<le> Wp"
    and out: "dims3 out = (C, n, m)" and ij: "i < n" "j < m"
  shows "\<exists>t. conv_pixel L x i j out = Inr t \<and> dims3 t = (C, n, m) \<and>
           (\<forall>c<C. \<forall>r<n. \<forall>q<m. at3 t c r q =
              (if r = i \<and> q = j
               then at3 out c r q +
                    (\<Sum>d<D. \<Sum>di<kernelsize L. \<Sum>dj<kernelsize L.
                       at4 (W L) c d di dj * at3 x d (i * stride L + di) (j * stride L + dj))
               else at3 out c r q))"
proof -
  let ?k = "kernelsize L" and ?s = "stride L"
  let ?sl = "slice3 x (i * ?s) (i * ?s + ?k) (j * ?s) (j * ?s + ?k)"
  have dsl: "dims3 ?sl = (D, ?k, ?k)"
    using x fit by (simp add: slice3_def slice_len_full)
  let ?wx = "tab4 (C, D, ?k, ?k)
      (\<lambda>c d r q. at4 (W L) c (bidx D d) (bidx ?k r) (bidx ?k q)
                 * at3 ?sl (bidx D d) (bidx ?k r) (bidx ?k q))"
  have mul: "np_mul43 (W L) ?sl = Inr ?wx"
    using w dsl by (simp add: np_mul43_def)
  have sl_at: "at3 ?sl d r q = at3 x d (i * ?s + r) (j * ?s + q)"
    if "d < D" "r < ?k" "q < ?k" for d r q
    using that x fit by (simp add: slice3_def slice_len_full)
  have v: "np_sum123 ?wx ! c =
      (\<Sum>d<D. \<Sum>di<?k. \<Sum>dj<?k. at4 (W L) c d di dj * at3 x d (i * ?s + di) (j * ?s + dj))"
    if "c < C" for c
    using that by (simp add: np_sum123_nth[of _ C D ?k ?k] sl_at)
  have len: "length (np_sum123 ?wx) = C"
    by (simp add: length_np_sum123[of _ C D ?k ?k])
  show ?thesis
    unfolding conv_pixel_def Let_def mul
    using out ij by (simp add: iadd_col_def len bto_def v)
qed

lemma conv_row_ok:
  assumes w: "dims4 (W L) = (C, D, kernelsize L, kernelsize L)"
    and x: "dims3 x = (D, Hp, Wp)"
    and fit: "i * stride L + kernelsize L \<le> Hp"
      "\<And>j. j < m \<Longrightarrow> j * stride L + kernelsize L \<le> Wp"
    and out: "dims3 out = (C, n, m)" and i: "i < n"
  shows "\<exists>t. for_range [0..<m] (\<lambda>j. conv_pixel L x i j) out = Inr t \<and> dims3 t = (C, n, m) \<and>
           (\<forall>c<C. \<forall>r<n. \<forall>q<m. at3 t c r q =
              (if r = i then at3 out c r q + conv_sum L D x c i q else at3 out c r q))"
proof -
  let ?P = "\<lambda>j t. dims3 t = (C, n, m) \<and>
           (\<forall>c<C. \<forall>r<n. \<forall>q<m. at3 t c r q =
              (if r = i \<and> q < j then at3 out c r q + conv_sum L D x c i q else at3 out c r q))"
  have "\<exists>t. for_range [0..<m] (\<lambda>j. conv_pixel L x i j) out = Inr t \<and> ?P m t"
  proof (rule for_range_upt[where P = "?P"])
    show "?P 0 out" using out by simp
  next
    fix j t assume j: "j < m" and P: "?P j t"
    from conv_pixel_ok[OF w x fit(1) fit(2)[OF j] _ i j, of t] P
    obtain t' where t': "conv_pixel L x i j t = Inr t'" "dims3 t' = (C, n, m)"
      "\<forall>c<C. \<forall>r<n. \<forall>q<m. at3 t' c r q =
              (if r = i \<and> q = j
               then at3 t c r q + conv_sum L D x c i j
               else at3 t c r q)"
      unfolding conv_sum_def by blast
    have "?P (Suc j) t'"
      using t'(2,3) P by (auto simp: less_Suc_eq)
    with t'(1) show "\<exists>t'. conv_pixel L x i j t = Inr t' \<and> ?P (Suc j) t'" by blast
  qed
  then show ?thesis by auto
qed

lemma conv_loops_ok:
  assumes w: "dims4 (W L) = (C, D, kernelsize L, kernelsize L)"
    and x: "dims3 x = (D, Hp, Wp)"
    and fit: "\<And>i. i < n \<Longrightarrow> i * stride L + kernelsize L \<le> Hp"
      "\<And>j. j < m \<Longrightarrow> j * stride L + kernelsize L \<le> Wp"
  shows "\<exists>t. for_range [0..<n] (\<lambda>i. for_range [0..<m] (\<lambda>j. conv_pixel L x i j))
               (np_zeros3 (C, n, m)) = Inr t \<and> dims3 t = (C, n, m) \<and>
           (\<forall>c<C. \<forall>r<n. \<forall>q<m. at3 t c r q = conv_sum L D x c r q)"
proof -
  let ?Q = "\<lambda>i t. dims3 t = (C, n, m) \<and>
           (\<forall>c<C. \<forall>r<n. \<forall>q<m. at3 t c r q = (if r < i then conv_sum L D x c r q else 0))"
  have "\<exists>t. for_range [0..<n] (\<lambda>i. for_range [0..<m] (\<lambda>j. conv_pixel L x i j))
               (np_zeros3 (C, n, m)) = Inr t \<and> ?Q n t"
  proof (rule for_range_upt[where P = "?Q"])
    show "?Q 0 (np_zeros3 (C, n, m))" by (simp add: np_zeros3_def)
  next
    fix i t assume i: "i < n" and Q: "?Q i t"
    from conv_row_ok[OF w x fit(1)[OF i] fit(2) _ i, of m t] Q
    obtain t' where t': "for_range [0..<m] (\<lambda>j. conv_pixel L x i j) t = Inr t'"
      "dims3 t' = (C, n, m)"
      "\<forall>c<C. \<forall>r<n. \<forall>q<m. at3 t' c r q =
              (if r = i then at3 t c r q + conv_sum L D x c i q else at3 t c r q)"
      by blast
    have "?Q (Suc i) t'"
      using t'(2,3) Q by (auto simp: less_Suc_eq)
    with t'(1) show "\<exists>t'. for_range [0..<m] (\<lambda>j. conv_pixel L x i j) t = Inr t' \<and> ?Q (Suc i) t'"
      by blast
  qed
  then show ?thesis by auto
qed

lemma np_pad_dims: "dims3 x = (D, H, Wd) \<Longrightarrow> dims3 (np_pad p x) = (D, H + 2 * p, Wd + 2 * p)"
  by (simp add: np_pad_def)

lemma output_size_nat:
  assumes "0 < s" and "k \<le> H + 2 * p"
  shows "(int H - int k + 2 * int p) div int s + 1 = int ((H + 2 * p - k) div s + 1)"
proof -
  have "int H - int k + 2 * int p = int (H + 2 * p - k)"
    using assms(2) by simp
  then show ?thesis
    by (simp add: zdiv_int)
qed

lemma window_fits:
  assumes "0 < s" and "k \<le> n" and "i < (n - k) div s + 1"
  shows "i * s + k \<le> (n::nat)"
proof -
  have "i \<le> (n - k) div s" using assms(3) by simp
  then have "i * s \<le> (n - k) div s * s" by simp
  also have "\<dots> \<le> n - k" by (simp add: div_times_less_eq_dividend)
  finally show ?thesis using assms(2) by simp
qed

lemma last_window_fits:
  assumes "j \<le> m" and "m * s + k \<le> (n::nat)"
  shows "j * s + k \<le> n"
proof -
  have "j * s \<le> m * s" by (rule mult_le_mono1[OF assms(1)])
  then have "j * s + k \<le> m * s + k" by (rule add_le_mono1)
  then show ?thesis using assms(2) by (rule le_trans)
qed

lemma square_fits:
  assumes "0 < s" and "k \<le> H + 2 * p" and "H \<le> Wd"
  shows "(H + 2 * p - k) div s * s + k \<le> Wd + 2 * (p::nat)"
proof -
  have "(H + 2 * p - k) div s * s \<le> H + 2 * p - k"
    by (rule div_times_less_eq_dividend)
  with assms(2,3) show ?thesis by linarith
qed

lemma convLayer_call_correct:
  assumes w: "dims4 (W L) = (out_channels L, D, kernelsize L, kernelsize L)"
    and x: "dims3 x = (D, H, Wd)"
    and s: "0 < stride L" and k: "kernelsize L \<le> H + 2 * pad L"
    and fitw: "(H + 2 * pad L - kernelsize L) div stride L * stride L + kernelsize L
                 \<le> Wd + 2 * pad L"
  shows "\<exists>y. convLayer_call L x = Inr (y, L\<lparr>cache := Some (np_pad (pad L) x)\<rparr>) \<and>
     dims3 y = (out_channels L, (H + 2 * pad L - kernelsize L) div stride L + 1,
                (H + 2 * pad L - kernelsize L) div stride L + 1) \<and>
     (\<forall>c<out_channels L. \<forall>i<(H + 2 * pad L - kernelsize L) div stride L + 1.
        \<forall>j<(H + 2 * pad L - kernelsize L) div stride L + 1.
        at3 y c i j =
          (\<Sum>d<D. \<Sum>di<kernelsize L. \<Sum>dj<kernelsize L.
             at4 (W L) c d di dj *
             at3 (np_pad (pad L) x) d (i * stride L + di) (j * stride L + dj)))"
proof -
  let ?n = "(H + 2 * pad L - kernelsize L) div stride L + 1"
  let ?xp = "np_pad (pad L) x"
  have fit1: "i * stride L + kernelsize L \<le> H + 2 * pad L" if "i < ?n" for i
    using window_fits[OF s k that] .
  have fit2: "j * stride L + kernelsize L \<le> Wd + 2 * pad L" if "j < ?n" for j
  proof -
    from that have "j \<le> (H + 2 * pad L - kernelsize L) div stride L" by simp
    from last_window_fits[OF this fitw] show ?thesis .
  qed
  from conv_loops_ok[OF w np_pad_dims[OF x] fit1 fit2, of ?n ?n]
  obtain t where t: "for_range [0..<?n] (\<lambda>i. for_range [0..<?n] (\<lambda>j. conv_pixel L ?xp i j))
               (np_zeros3 (out_channels L, ?n, ?n)) = Inr t" "dims3 t = (out_channels L, ?n, ?n)"
           "\<forall>c<out_channels L. \<forall>r<?n. \<forall>q<?n. at3 t c r q = conv_sum L D ?xp c r q"
    by blast
  have "convLayer_call L x = Inr (t, L\<lparr>cache := Some ?xp\<rparr>)"
  proof -
    have 1: "\<not> (int H - int (kernelsize L) + 2 * int (pad L)) div int (stride L) + 1 < 0"
      by (simp add: output_size_nat[OF s k])
    have 2: "nat ((int H - int (kernelsize L) + 2 * int (pad L)) div int (stride L) + 1) = ?n"
      by (simp only: output_size_nat[OF s k] nat_int)
    have "convLayer_call L x =
        (if stride L = 0 then Inl ZeroDivisionError else Inr (t, L\<lparr>cache := Some ?xp\<rparr>))"
      by (simp only: convLayer_call_def x Let_def 1 2 t(1) prod.case if_False sum.case)
    then show ?thesis
      using s by simp
  qed
  with t(2,3) show ?thesis
    unfolding conv_sum_def by blast
qed


lemma np_pad_at:
  assumes "dims3 x = (D, H, Wd)" and "d < D" and "r < H + 2 * p" and "q < Wd + 2 * p"
  shows "at3 (np_pad p x) d r q =
     (if p \<le> r \<and> r < H + p \<and> p \<le> q \<and> q < Wd + p then at3 x d (r - p) (q - p) else 0)"
  using assms by (simp add: np_pad_def)

subsection \<open>Convolution forward\<close>

text \<open>
  Claim C1, as far as the code supports it. The output is a square of side
  \<open>(H + 2p - k) div s + 1\<close>, computed from the first spatial dimension \<open>H\<close> alone.
  Take a layer with stride \<open>s \<ge> 1\<close> and weights of shape \<open>(C, D, k, k)\<close>, and an input
  of shape \<open>(D, H, Wd)\<close> with \<open>k \<le> H + 2p\<close> whose padded width holds the last window,
  \<open>((H + 2p - k) div s) * s + k \<le> Wd + 2p\<close> (so it is for every \<open>H \<le> Wd\<close>, lemma
  \<open>square_fits\<close>). Then the call returns, caches the padded input, and the output at
  channel \<open>c\<close> and position \<open>(i, j)\<close> is the sum over all input channels \<open>d\<close> and kernel
  offsets \<open>(di, dj)\<close> of \<open>W[c,d,di,dj]\<close> times the input padded with \<open>p\<close> zeros on each
  spatial side at \<open>(d, i*s + di, j*s + dj)\<close>. Nothing else is added: there is no bias
  term.
\<close>

theorem convLayer_call_value:
  assumes L: "kernelsize L = k" "stride L = s" "pad L = p" "in_channels L = D"
      "out_channels L = C" "dims4 (W L) = (C, D, k, k)"
    and x: "dims3 x = (D, H, Wd)"
    and s: "0 < s" and k: "k \<le> H + 2 * p"
    and fitw: "(H + 2 * p - k) div s * s + k \<le> Wd + 2 * p"
  shows "\<exists>y. convLayer_call L x = Inr (y, L\<lparr>cache := Some (np_pad p x)\<rparr>) \<and>
     dims3 y = (C, (H + 2 * p - k) div s + 1, (H + 2 * p - k) div s + 1) \<and>
     (\<forall>c<C. \<forall>i<(H + 2 * p - k) div s + 1. \<forall>j<(H + 2 * p - k) div s + 1.
        at3 y c i j =
          (\<Sum>d<D. \<Sum>di<k. \<Sum>dj<k.
             at4 (W L) c d di dj *
             (if p \<le> i * s + di \<and> i * s + di < H + p \<and> p \<le> j * s + dj \<and> j * s + dj < Wd + p
              then at3 x d (i * s + di - p) (j * s + dj - p) else 0)))"
proof -
  let ?n = "(H + 2 * p - k) div s + 1"
  from convLayer_call_correct[of L D x H Wd] L x s k fitw
  obtain y where y: "convLayer_call L x = Inr (y, L\<lparr>cache := Some (np_pad p x)\<rparr>)"
    "dims3 y = (C, ?n, ?n)"
    "\<forall>c<C. \<forall>i<?n. \<forall>j<?n. at3 y c i j =
          (\<Sum>d<D. \<Sum>di<k. \<Sum>dj<k.
             at4 (W L) c d di dj * at3 (np_pad p x) d (i * s + di) (j * s + dj))"
    by auto
  have "at3 y c i j = (\<Sum>d<D. \<Sum>di<k. \<Sum>dj<k.
             at4 (W L) c d di dj *
             (if p \<le> i * s + di \<and> i * s + di < H + p \<and> p \<le> j * s + dj \<and> j * s + dj < Wd + p
              then at3 x d (i * s + di - p) (j * s + dj - p) else 0))"
    if c: "c < C" and i: "i < ?n" and j: "j < ?n" for c i j
  proof -
    have fi: "i * s + k \<le> H + 2 * p" using window_fits[OF s k i] .
    have "j \<le> (H + 2 * p - k) div s" using j by simp
    from last_window_fits[OF this fitw] have fj: "j * s + k \<le> Wd + 2 * p" .
    have "at3 (np_pad p x) d (i * s + di) (j * s + dj) =
        (if p \<le> i * s + di \<and> i * s + di < H + p \<and> p \<le> j * s + dj \<and> j * s + dj < Wd + p
              then at3 x d (i * s + di - p) (j * s + dj - p) else 0)"
      if "d < D" "di < k" "dj < k" for d di dj
      using that fi fj by (intro np_pad_at[OF x]) auto
    then show ?thesis
      using y(3) c i j by simp
  qed
  with y(1,2) show ?thesis by blast
qed

text \<open>The theorem at a 2x2 kernel on a 2x2 image: the one output element is 1*1 + 2*2 + 3*3 + 4*4.\<close>

theorem convLayer_call_value_witness:
  "dims4 (W \<lparr>kernelsize = 2, stride = 1, pad = 0, in_channels = 1, out_channels = 1,
      W = \<lparr>dims4 = (1, 1, 2, 2), data4 = [[[[1, 2], [3, 4]]]]\<rparr>, cache = None, gradW = None\<rparr>) = (1, 1, 2, 2) \<and>
   (\<exists>y. convLayer_call \<lparr>kernelsize = 2, stride = 1, pad = 0, in_channels = 1, out_channels = 1,
      W = \<lparr>dims4 = (1, 1, 2, 2), data4 = [[[[1, 2], [3, 4]]]]\<rparr>, cache = None, gradW = None\<rparr>
      \<lparr>dims3 = (1, 2, 2), data3 = [[[1, 2], [3, 4]]]\<rparr> =
      Inr (y, \<lparr>kernelsize = 2, stride = 1, pad = 0, in_channels = 1, out_channels = 1,
      W = \<lparr>dims4 = (1, 1, 2, 2), data4 = [[[[1, 2], [3, 4]]]]\<rparr>,
      cache = Some (np_pad 0 \<lparr>dims3 = (1, 2, 2), data3 = [[[1, 2], [3, 4]]]\<rparr>), gradW = None\<rparr>) \<and>
      dims3 y = (1, 1, 1) \<and> at3 y 0 0 0 = 30)"
  using convLayer_call_value[of "\<lparr>kernelsize = 2, stride = 1, pad = 0, in_channels = 1, out_channels = 1,
      W = \<lparr>dims4 = (1, 1, 2, 2), data4 = [[[[1, 2], [3, 4]]]]\<rparr>, cache = None, gradW = None\<rparr>"
      2 1 0 1 1 "\<lparr>dims3 = (1, 2, 2), data3 = [[[1, 2], [3, 4]]]\<rparr>" 2 2]
  by (simp add: at3_def at4_def lessThan_Suc eval_nat_numeral)

text \<open>
  Claim C1 as stated, for every input of shape \<open>(D, H, Wd)\<close>, fails when \<open>Wd < H\<close>:
  on a 3x2 image a 3x3 kernel meets a slice of shape \<open>(1, 3, 2)\<close>, the product with the
  weights cannot be broadcast and the call raises \<open>ValueError\<close> instead of returning.
\<close>

theorem convLayer_call_nonsquare_raises:
  "convLayer_call \<lparr>kernelsize = 3, stride = 1, pad = 0, in_channels = 1, out_channels = 1,
      W = \<lparr>dims4 = (1, 1, 3, 3), data4 = [[[[1, 1, 1], [1, 1, 1], [1, 1, 1]]]]\<rparr>,
      cache = None, gradW = None\<rparr>
      \<lparr>dims3 = (1, 3, 2), data3 = [[[1, 2], [3, 4], [5, 6]]]\<rparr> = Inl ValueError"
  by (simp add: convLayer_call_def np_pad_def np_zeros3_def conv_pixel_def slice3_def
      slice_len_def np_mul43_def bdim_def tab3_def)

subsection \<open>Convolution backward\<close>

lemma length_col3: "dims3 a = (C, H, Wd) \<Longrightarrow> length (col3 a h w) = C"
  by (simp add: col3_def)

lemma col3_nth: "dims3 a = (C, H, Wd) \<Longrightarrow> c < C \<Longrightarrow> col3 a h w ! c = at3 a c h w"
  by (simp add: col3_def)

lemma bto_same [simp]: "bto n n"
  by (simp add: bto_def)

lemma conv_back_pixel_ok:
  assumes wd: "dims4 (W L) = (C, D, kernelsize L, kernelsize L)" and C: "0 < C"
    and x: "dims3 x = (D, Hp, Wp)" and dl: "dims3 delta = (C, n, m)"
    and fit: "h * stride L + kernelsize L \<le> Hp" "w * stride L + kernelsize L \<le> Wp"
    and dX: "dims3 dX = (D, Hp, Wp)" and dW: "dims4 dW = (C, D, kernelsize L, kernelsize L)"
  shows "\<exists>dX' dW'. conv_back_pixel L x delta h w (dX, dW) = Inr (dX', dW') \<and>
      dims3 dX' = (D, Hp, Wp) \<and> dims4 dW' = (C, D, kernelsize L, kernelsize L) \<and>
      (\<forall>d<D. \<forall>r<Hp. \<forall>q<Wp. at3 dX' d r q = at3 dX d r q + dx_term L C delta h w d r q) \<and>
      (\<forall>c<C. \<forall>d<D. \<forall>di<kernelsize L. \<forall>dj<kernelsize L.
         at4 dW' c d di dj = at4 dW c d di dj +
           at3 x d (h * stride L + di) (w * stride L + dj) * at3 delta c h w)"
proof -
  let ?k = "kernelsize L" and ?s = "stride L"
  let ?v = "col3 delta h w"
  have len: "length ?v = C" by (rule length_col3[OF dl])
  let ?dx = "tab4 (C, D, ?k, ?k) (\<lambda>c d r q. at4 (W L) (bidx C c) d r q * ?v ! bidx C c)"
  have mul: "np_mul4_col (W L) ?v = Inr ?dx"
    using wd C by (simp add: np_mul4_col_def len)
  let ?S = "np_sum0 ?dx"
  have dS: "dims3 ?S = (D, ?k, ?k)" by (simp add: np_sum0_def)
  have S_at: "at3 ?S d a b = (\<Sum>c<C. at4 (W L) c d a b * at3 delta c h w)"
    if "d < D" "a < ?k" "b < ?k" for d a b
    using that by (simp add: np_sum0_def sum_list_map_upt col3_nth[OF dl])
  let ?dX' = "tab3 (D, Hp, Wp)
              (\<lambda>d r q. if h * ?s \<le> r \<and> r < h * ?s + ?k \<and> w * ?s \<le> q \<and> q < w * ?s + ?k
                        then at3 dX d r q + at3 ?S (bidx D d) (bidx ?k (r - h * ?s)) (bidx ?k (q - w * ?s))
                        else at3 dX d r q)"
  have add: "islice_add dX (h * ?s) (h * ?s + ?k) (w * ?s) (w * ?s + ?k) ?S = Inr ?dX'"
    using dX dS fit by (simp add: islice_add_def slice_len_full)
  have dX'_at: "at3 ?dX' d r q = at3 dX d r q + dx_term L C delta h w d r q"
    if "d < D" "r < Hp" "q < Wp" for d r q
  proof -
    have 1: "at3 ?dX' d r q =
      (if h * ?s \<le> r \<and> r < h * ?s + ?k \<and> w * ?s \<le> q \<and> q < w * ?s + ?k
       then at3 dX d r q + at3 ?S (bidx D d) (bidx ?k (r - h * ?s)) (bidx ?k (q - w * ?s))
       else at3 dX d r q)"
      using that by (simp only: at3_tab3)
    show ?thesis
    proof (cases "h * ?s \<le> r \<and> r < h * ?s + ?k \<and> w * ?s \<le> q \<and> q < w * ?s + ?k")
      case True
      then have "r - h * ?s < ?k" "q - w * ?s < ?k" by auto
      with True that show ?thesis
        unfolding 1 by (simp add: dx_term_def S_at)
    next
      case False
      then show ?thesis
        unfolding 1 dx_term_def by (simp only: if_False add_0_right)
    qed
  qed
  let ?sl = "slice3 x (h * ?s) (h * ?s + ?k) (w * ?s) (w * ?s + ?k)"
  have dsl: "dims3 ?sl = (D, ?k, ?k)"
    using x fit by (simp add: slice3_def slice_len_full)
  have sl_at: "at3 ?sl d r q = at3 x d (h * ?s + r) (w * ?s + q)"
    if "d < D" "r < ?k" "q < ?k" for d r q
    using that x fit by (simp add: slice3_def slice_len_full)
  let ?xd = "tab4 (C, D, ?k, ?k) (\<lambda>c d r q. at3 ?sl d r q * ?v ! c)"
  have mul3: "np_mul3_col ?sl ?v = Inr ?xd"
    using C dsl by (simp add: np_mul3_col_def len)
  let ?dW' = "tab4 (C, D, ?k, ?k)
            (\<lambda>c d r q. at4 dW c d r q + at4 ?xd (bidx C c) (bidx D d) (bidx ?k r) (bidx ?k q))"
  have add4: "iadd4 dW ?xd = Inr ?dW'"
    using dW by (simp add: iadd4_def)
  have dW'_at: "at4 ?dW' c d di dj = at4 dW c d di dj +
           at3 x d (h * ?s + di) (w * ?s + dj) * at3 delta c h w"
    if "c < C" "d < D" "di < ?k" "dj < ?k" for c d di dj
    using that by (simp add: sl_at col3_nth[OF dl])
  have "conv_back_pixel L x delta h w (dX, dW) = Inr (?dX', ?dW')"
    by (simp add: conv_back_pixel_def Let_def mul add mul3 add4)
  moreover have "dims3 ?dX' = (D, Hp, Wp)" "dims4 ?dW' = (C, D, ?k, ?k)" by simp_all
  ultimately show ?thesis
    using dX'_at dW'_at by blast
qed

lemma conv_back_row_ok:
  assumes wd: "dims4 (W L) = (C, D, kernelsize L, kernelsize L)" and C: "0 < C"
    and x: "dims3 x = (D, Hp, Wp)" and dl: "dims3 delta = (C, n, m)"
    and fit: "h * stride L + kernelsize L \<le> Hp"
      "\<And>w. w < m \<Longrightarrow> w * stride L + kernelsize L \<le> Wp"
    and dX: "dims3 dX = (D, Hp, Wp)" and dW: "dims4 dW = (C, D, kernelsize L, kernelsize L)"
  shows "\<exists>dX' dW'. for_range [0..<m] (\<lambda>w. conv_back_pixel L x delta h w) (dX, dW)
        = Inr (dX', dW') \<and>
      dims3 dX' = (D, Hp, Wp) \<and> dims4 dW' = (C, D, kernelsize L, kernelsize L) \<and>
      (\<forall>d<D. \<forall>r<Hp. \<forall>q<Wp.
         at3 dX' d r q = at3 dX d r q + (\<Sum>w<m. dx_term L C delta h w d r q)) \<and>
      (\<forall>c<C. \<forall>d<D. \<forall>di<kernelsize L. \<forall>dj<kernelsize L.
         at4 dW' c d di dj = at4 dW c d di dj +
           (\<Sum>w<m. at3 x d (h * stride L + di) (w * stride L + dj) * at3 delta c h w))"
proof -
  let ?k = "kernelsize L"
  let ?P = "\<lambda>j t. dims3 (fst t) = (D, Hp, Wp) \<and> dims4 (snd t) = (C, D, ?k, ?k) \<and>
      (\<forall>d<D. \<forall>r<Hp. \<forall>q<Wp.
         at3 (fst t) d r q = at3 dX d r q + (\<Sum>w<j. dx_term L C delta h w d r q)) \<and>
      (\<forall>c<C. \<forall>d<D. \<forall>di<?k. \<forall>dj<?k.
         at4 (snd t) c d di dj = at4 dW c d di dj +
           (\<Sum>w<j. at3 x d (h * stride L + di) (w * stride L + dj) * at3 delta c h w))"
  have "\<exists>t. for_range [0..<m] (\<lambda>w. conv_back_pixel L x delta h w) (dX, dW) = Inr t \<and> ?P m t"
  proof (rule for_range_upt[where P = ?P])
    show "?P 0 (dX, dW)" using dX dW by simp
  next
    fix j t assume j: "j < m" and P: "?P j t"
    obtain a b where t: "t = (a, b)" by (cases t)
    from P t have da: "dims3 a = (D, Hp, Wp)" and db: "dims4 b = (C, D, ?k, ?k)" by simp_all
    from conv_back_pixel_ok[OF wd C x dl fit(1) fit(2)[OF j] da db]
    obtain a' b' where t': "conv_back_pixel L x delta h j (a, b) = Inr (a', b')"
      "dims3 a' = (D, Hp, Wp)" "dims4 b' = (C, D, ?k, ?k)"
      "\<forall>d<D. \<forall>r<Hp. \<forall>q<Wp. at3 a' d r q = at3 a d r q + dx_term L C delta h j d r q"
      "\<forall>c<C. \<forall>d<D. \<forall>di<?k. \<forall>dj<?k.
         at4 b' c d di dj = at4 b c d di dj +
           at3 x d (h * stride L + di) (j * stride L + dj) * at3 delta c h j"
      by blast
    have "?P (Suc j) (a', b')"
      using t'(2-5) P t by simp
    with t'(1) t show "\<exists>t'. conv_back_pixel L x delta h j t = Inr t' \<and> ?P (Suc j) t'"
      by blast
  qed
  then show ?thesis by auto
qed

lemma conv_back_loops_ok:
  assumes wd: "dims4 (W L) = (C, D, kernelsize L, kernelsize L)" and C: "0 < C"
    and x: "dims3 x = (D, Hp, Wp)" and dl: "dims3 delta = (C, n, m)"
    and fit: "\<And>h. h < n \<Longrightarrow> h * stride L + kernelsize L \<le> Hp"
      "\<And>w. w < m \<Longrightarrow> w * stride L + kernelsize L \<le> Wp"
  shows "\<exists>dX dW. for_range [0..<n] (\<lambda>h. for_range [0..<m] (\<lambda>w. conv_back_pixel L x delta h w))
          (np_zeros3 (D, Hp, Wp), np_zeros4 (C, D, kernelsize L, kernelsize L)) = Inr (dX, dW) \<and>
      dims3 dX = (D, Hp, Wp) \<and> dims4 dW = (C, D, kernelsize L, kernelsize L) \<and>
      (\<forall>d<D. \<forall>r<Hp. \<forall>q<Wp.
         at3 dX d r q = (\<Sum>h<n. \<Sum>w<m. dx_term L C delta h w d r q)) \<and>
      (\<forall>c<C. \<forall>d<D. \<forall>di<kernelsize L. \<forall>dj<kernelsize L.
         at4 dW c d di dj =
           (\<Sum>h<n. \<Sum>w<m. at3 x d (h * stride L + di) (w * stride L + dj) * at3 delta c h w))"
proof -
  let ?k = "kernelsize L"
  let ?Q = "\<lambda>i t. dims3 (fst t) = (D, Hp, Wp) \<and> dims4 (snd t) = (C, D, ?k, ?k) \<and>
      (\<forall>d<D. \<forall>r<Hp. \<forall>q<Wp.
         at3 (fst t) d r q = (\<Sum>h<i. \<Sum>w<m. dx_term L C delta h w d r q)) \<and>
      (\<forall>c<C. \<forall>d<D. \<forall>di<?k. \<forall>dj<?k.
         at4 (snd t) c d di dj =
           (\<Sum>h<i. \<Sum>w<m. at3 x d (h * stride L + di) (w * stride L + dj) * at3 delta c h w))"
  have "\<exists>t. for_range [0..<n] (\<lambda>h. for_range [0..<m] (\<lambda>w. conv_back_pixel L x delta h w))
          (np_zeros3 (D, Hp, Wp), np_zeros4 (C, D, ?k, ?k)) = Inr t \<and> ?Q n t"
  proof (rule for_range_upt[where P = ?Q])
    show "?Q 0 (np_zeros3 (D, Hp, Wp), np_zeros4 (C, D, ?k, ?k))"
      by (simp add: np_zeros3_def np_zeros4_def)
  next
    fix i t assume i: "i < n" and Q: "?Q i t"
    obtain a b where t: "t = (a, b)" by (cases t)
    from Q t have da: "dims3 a = (D, Hp, Wp)" and db: "dims4 b = (C, D, ?k, ?k)" by simp_all
    from conv_back_row_ok[OF wd C x dl fit(1)[OF i] fit(2) da db]
    obtain a' b' where t': "for_range [0..<m] (\<lambda>w. conv_back_pixel L x delta i w) (a, b)
        = Inr (a', b')"
      "dims3 a' = (D, Hp, Wp)" "dims4 b' = (C, D, ?k, ?k)"
      "\<forall>d<D. \<forall>r<Hp. \<forall>q<Wp.
         at3 a' d r q = at3 a d r q + (\<Sum>w<m. dx_term L C delta i w d r q)"
      "\<forall>c<C. \<forall>d<D. \<forall>di<?k. \<forall>dj<?k.
         at4 b' c d di dj = at4 b c d di dj +
           (\<Sum>w<m. at3 x d (i * stride L + di) (w * stride L + dj) * at3 delta c i w)"
      by blast
    have "?Q (Suc i) (a', b')"
      using t'(2-5) Q t by simp
    with t'(1) t
    show "\<exists>t'. for_range [0..<m] (\<lambda>w. conv_back_pixel L x delta i w) t = Inr t' \<and> ?Q (Suc i) t'"
      by blast
  qed
  then show ?thesis by auto
qed

lemma np_crop_pos:
  assumes "dims3 a = (D, H + 2 * p, Wd + 2 * p)" and "0 < p"
  shows "dims3 (np_crop p a) = (D, H, Wd)"
    and "d < D \<Longrightarrow> r < H \<Longrightarrow> q < Wd \<Longrightarrow> at3 (np_crop p a) d r q = at3 a d (p + r) (p + q)"
proof -
  have c: "clip (int p) (H + 2 * p) = p" "clip (- int p) (H + 2 * p) = H + p"
    "clip (int p) (Wd + 2 * p) = p" "clip (- int p) (Wd + 2 * p) = Wd + p"
    using assms(2) by (simp_all add: clip_def)
  show "dims3 (np_crop p a) = (D, H, Wd)"
    using assms(1) by (simp add: np_crop_def c)
  show "at3 (np_crop p a) d r q = at3 a d (p + r) (p + q)" if "d < D" "r < H" "q < Wd"
    using assms(1) that by (simp add: np_crop_def c)
qed

lemma np_crop_zero: "dims3 a = (D, H, Wd) \<Longrightarrow> dims3 (np_crop 0 a) = (D, 0, 0)"
  by (simp add: np_crop_def clip_def)

lemma convLayer_backward_correct:
  assumes wd: "dims4 (W L) = (C, D, kernelsize L, kernelsize L)" and C: "0 < C"
    and c: "cache L = Some x" and x: "dims3 x = (D, Hp, Wp)" and dl: "dims3 delta = (C, n, m)"
    and fit: "\<And>h. h < n \<Longrightarrow> h * stride L + kernelsize L \<le> Hp"
      "\<And>w. w < m \<Longrightarrow> w * stride L + kernelsize L \<le> Wp"
  shows "\<exists>dX dW. convLayer_backward L delta = Inr (np_crop (pad L) dX, L\<lparr>gradW := Some dW\<rparr>) \<and>
      dims3 dX = (D, Hp, Wp) \<and> dims4 dW = (C, D, kernelsize L, kernelsize L) \<and>
      (\<forall>d<D. \<forall>r<Hp. \<forall>q<Wp.
         at3 dX d r q = (\<Sum>h<n. \<Sum>w<m. dx_term L C delta h w d r q)) \<and>
      (\<forall>c<C. \<forall>d<D. \<forall>di<kernelsize L. \<forall>dj<kernelsize L.
         at4 dW c d di dj =
           (\<Sum>h<n. \<Sum>w<m. at3 x d (h * stride L + di) (w * stride L + dj) * at3 delta c h w))"
proof -
  from conv_back_loops_ok[OF wd C x dl fit]
  obtain dX dW where l: "for_range [0..<n] (\<lambda>h. for_range [0..<m] (\<lambda>w. conv_back_pixel L x delta h w))
          (np_zeros3 (D, Hp, Wp), np_zeros4 (C, D, kernelsize L, kernelsize L)) = Inr (dX, dW)"
    and r: "dims3 dX = (D, Hp, Wp)" "dims4 dW = (C, D, kernelsize L, kernelsize L)"
      "\<forall>d<D. \<forall>r<Hp. \<forall>q<Wp.
         at3 dX d r q = (\<Sum>h<n. \<Sum>w<m. dx_term L C delta h w d r q)"
      "\<forall>c<C. \<forall>d<D. \<forall>di<kernelsize L. \<forall>dj<kernelsize L.
         at4 dW c d di dj =
           (\<Sum>h<n. \<Sum>w<m. at3 x d (h * stride L + di) (w * stride L + dj) * at3 delta c h w)"
    by blast
  have "convLayer_backward L delta = Inr (np_crop (pad L) dX, L\<lparr>gradW := Some dW\<rparr>)"
    by (simp add: convLayer_backward_def dl c x wd l)
  with r show ?thesis by blast
qed

text \<open>
  Claim C2, as far as the code supports it. Take a layer with weights of shape
  \<open>(C, D, k, k)\<close>, \<open>C \<ge> 1\<close>, stride \<open>s \<ge> 1\<close>, and a forward call on an input of
  shape \<open>(D, H, Wd)\<close> with \<open>k \<le> H + 2p\<close> whose padded width holds the last window,
  \<open>((H + 2p - k) div s) * s + k \<le> Wd + 2p\<close> (so it is for every \<open>H \<le> Wd\<close>); let
  \<open>delta\<close> have the shape of the forward output. Then \<^verbatim>\<open>backward\<close> returns and
  stores as \<^verbatim>\<open>gradW\<close> an array of the weights' shape whose element at
  \<open>(c, d, di, dj)\<close> is the sum over all output positions \<open>(h, w)\<close> of the padded input
  at \<open>(d, h*s + di, w*s + dj)\<close> times \<open>delta[c,h,w]\<close>. When \<open>p \<ge> 1\<close> the returned
  input-gradient has the shape of the unpadded input, and its element at \<open>(d, r, q)\<close> is
  the sum over all output positions of what each adds at the padded position
  \<open>(d, r + p, q + p)\<close>: inside the position's receptive-field window
  \<open>sum_c W[c,d,...] * delta[c,h,w]\<close> (\<open>dx_term\<close>), so that overlapping windows are
  summed. For \<open>p = 0\<close> nothing is stated about the returned tensor.
\<close>

theorem convLayer_backward_gradients:
  assumes L: "kernelsize L = k" "stride L = s" "pad L = p" "in_channels L = D"
      "out_channels L = C" "dims4 (W L) = (C, D, k, k)"
    and C: "0 < C" and x: "dims3 x = (D, H, Wd)"
    and s: "0 < s" and k: "k \<le> H + 2 * p"
    and fitw: "(H + 2 * p - k) div s * s + k \<le> Wd + 2 * p"
    and fwd: "convLayer_call L x = Inr (y, L1)"
    and dl: "dims3 delta = dims3 y"
  shows "\<exists>g dW. convLayer_backward L1 delta = Inr (g, L1\<lparr>gradW := Some dW\<rparr>) \<and>
     dims4 dW = (C, D, k, k) \<and>
     (\<forall>c<C. \<forall>d<D. \<forall>di<k. \<forall>dj<k.
        at4 dW c d di dj =
          (\<Sum>h<(H + 2 * p - k) div s + 1. \<Sum>w<(H + 2 * p - k) div s + 1.
             at3 (np_pad p x) d (h * s + di) (w * s + dj) * at3 delta c h w)) \<and>
     (0 < p \<longrightarrow> dims3 g = (D, H, Wd) \<and>
        (\<forall>d<D. \<forall>r<H. \<forall>q<Wd.
           at3 g d r q =
             (\<Sum>h<(H + 2 * p - k) div s + 1. \<Sum>w<(H + 2 * p - k) div s + 1.
                dx_term L C delta h w d (r + p) (q + p))))"
proof -
  let ?n = "(H + 2 * p - k) div s + 1"
  let ?xp = "np_pad p x"
  from convLayer_call_correct[of L D x H Wd] L x s k fitw
  obtain y' where y': "convLayer_call L x = Inr (y', L\<lparr>cache := Some ?xp\<rparr>)"
    "dims3 y' = (C, ?n, ?n)"
    by auto
  with fwd have L1: "L1 = L\<lparr>cache := Some ?xp\<rparr>" and dy: "dims3 y = (C, ?n, ?n)" by simp_all
  have wd1: "dims4 (W L1) = (C, D, kernelsize L1, kernelsize L1)"
    using L by (simp add: L1)
  have c1: "cache L1 = Some ?xp" by (simp add: L1)
  have xp: "dims3 ?xp = (D, H + 2 * p, Wd + 2 * p)" by (rule np_pad_dims[OF x])
  have dl': "dims3 delta = (C, ?n, ?n)" using dl dy by simp
  have fit1: "h * stride L1 + kernelsize L1 \<le> H + 2 * p" if "h < ?n" for h
    using window_fits[OF s k that] L by (simp add: L1)
  have fit2: "w * stride L1 + kernelsize L1 \<le> Wd + 2 * p" if "w < ?n" for w
  proof -
    from that have "w \<le> (H + 2 * p - k) div s" by simp
    from last_window_fits[OF this fitw] show ?thesis using L by (simp add: L1)
  qed
  from convLayer_backward_correct[OF wd1 C c1 xp dl' fit1 fit2]
  obtain dX dW where b: "convLayer_backward L1 delta = Inr (np_crop (pad L1) dX, L1\<lparr>gradW := Some dW\<rparr>)"
    "dims3 dX = (D, H + 2 * p, Wd + 2 * p)" "dims4 dW = (C, D, kernelsize L1, kernelsize L1)"
    "\<forall>d<D. \<forall>r<H + 2 * p. \<forall>q<Wd + 2 * p.
         at3 dX d r q = (\<Sum>h<?n. \<Sum>w<?n. dx_term L1 C delta h w d r q)"
    "\<forall>c<C. \<forall>d<D. \<forall>di<kernelsize L1. \<forall>dj<kernelsize L1.
         at4 dW c d di dj =
           (\<Sum>h<?n. \<Sum>w<?n. at3 ?xp d (h * stride L1 + di) (w * stride L1 + dj) * at3 delta c h w)"
    by blast
  have eqs: "kernelsize L1 = k" "stride L1 = s" "pad L1 = p"
    using L by (simp_all add: L1)
  have dxt: "dx_term L1 C delta h w d r q = dx_term L C delta h w d r q" for h w d r q
    by (simp add: dx_term_def L1)
  have g: "dims3 (np_crop p dX) = (D, H, Wd) \<and>
        (\<forall>d<D. \<forall>r<H. \<forall>q<Wd.
           at3 (np_crop p dX) d r q = (\<Sum>h<?n. \<Sum>w<?n. dx_term L C delta h w d (r + p) (q + p)))"
    if p: "0 < p"
    using np_crop_pos[OF b(2) p] b(4) by (simp add: dxt add.commute)
  show ?thesis
    using b(1,3,5) g unfolding eqs by blast
qed

text \<open>
  The theorem on a 2x2 image with kernel 2, stride 1 and padding 1, with delta 1 at the
  output positions \<open>(0,0)\<close> and \<open>(1,1)\<close>, whose windows overlap at the padded position
  \<open>(1,1)\<close>: there the input-gradient is \<open>W[1,1] + W[0,0] = 4 + 1\<close>.
\<close>

theorem convLayer_backward_gradients_witness:
  "convLayer_call \<lparr>kernelsize = 2, stride = 1, pad = 1, in_channels = 1, out_channels = 1,
      W = \<lparr>dims4 = (1, 1, 2, 2), data4 = [[[[1, 2], [3, 4]]]]\<rparr>, cache = None, gradW = None\<rparr>
      \<lparr>dims3 = (1, 2, 2), data3 = [[[1, 2], [3, 4]]]\<rparr> = Inr (\<lparr>dims3 = (1, 3, 3), data3 = [[[4, 11, 6], [14, 30, 14], [6, 11, 4]]]\<rparr>, \<lparr>kernelsize = 2, stride = 1, pad = 1, in_channels = 1, out_channels = 1,
      W = \<lparr>dims4 = (1, 1, 2, 2), data4 = [[[[1, 2], [3, 4]]]]\<rparr>, cache = Some \<lparr>dims3 = (1, 4, 4), data3 = [[[0, 0, 0, 0], [0, 1, 2, 0], [0, 3, 4, 0], [0, 0, 0, 0]]]\<rparr>, gradW = None\<rparr>) \<and>
   (\<exists>g dW. convLayer_backward \<lparr>kernelsize = 2, stride = 1, pad = 1, in_channels = 1, out_channels = 1,
      W = \<lparr>dims4 = (1, 1, 2, 2), data4 = [[[[1, 2], [3, 4]]]]\<rparr>, cache = Some \<lparr>dims3 = (1, 4, 4), data3 = [[[0, 0, 0, 0], [0, 1, 2, 0], [0, 3, 4, 0], [0, 0, 0, 0]]]\<rparr>, gradW = None\<rparr>
      \<lparr>dims3 = (1, 3, 3), data3 = [[[1, 0, 0], [0, 1, 0], [0, 0, 0]]]\<rparr> = Inr (g, \<lparr>kernelsize = 2, stride = 1, pad = 1, in_channels = 1, out_channels = 1,
      W = \<lparr>dims4 = (1, 1, 2, 2), data4 = [[[[1, 2], [3, 4]]]]\<rparr>, cache = Some \<lparr>dims3 = (1, 4, 4), data3 = [[[0, 0, 0, 0], [0, 1, 2, 0], [0, 3, 4, 0], [0, 0, 0, 0]]]\<rparr>, gradW = None\<rparr>\<lparr>gradW := Some dW\<rparr>) \<and>
      dims4 dW = (1, 1, 2, 2) \<and> at4 dW 0 0 0 0 = 1 \<and> at4 dW 0 0 1 1 = 5 \<and>
      dims3 g = (1, 2, 2) \<and> at3 g 0 0 0 = 5 \<and> at3 g 0 0 1 = 2)"
proof -
  have f: "convLayer_call \<lparr>kernelsize = 2, stride = 1, pad = 1, in_channels = 1, out_channels = 1,
      W = \<lparr>dims4 = (1, 1, 2, 2), data4 = [[[[1, 2], [3, 4]]]]\<rparr>, cache = None, gradW = None\<rparr>
      \<lparr>dims3 = (1, 2, 2), data3 = [[[1, 2], [3, 4]]]\<rparr> = Inr (\<lparr>dims3 = (1, 3, 3), data3 = [[[4, 11, 6], [14, 30, 14], [6, 11, 4]]]\<rparr>, \<lparr>kernelsize = 2, stride = 1, pad = 1, in_channels = 1, out_channels = 1,
      W = \<lparr>dims4 = (1, 1, 2, 2), data4 = [[[[1, 2], [3, 4]]]]\<rparr>, cache = Some \<lparr>dims3 = (1, 4, 4), data3 = [[[0, 0, 0, 0], [0, 1, 2, 0], [0, 3, 4, 0], [0, 0, 0, 0]]]\<rparr>, gradW = None\<rparr>)"
    by (simp add: convLayer_call_def np_pad_def np_zeros3_def conv_pixel_def slice3_def
      slice_len_def np_mul43_def bdim_def bidx_def tab3_def tab4_def np_sum123_def iadd_col_def
      bto_def at3_def at4_def upt_conv_Cons)
  let ?L = "\<lparr>kernelsize = 2, stride = 1, pad = 1, in_channels = 1, out_channels = 1,
      W = \<lparr>dims4 = (1, 1, 2, 2), data4 = [[[[1, 2], [3, 4]]]]\<rparr>, cache = None, gradW = None\<rparr>"
  let ?L1 = "\<lparr>kernelsize = 2, stride = 1, pad = 1, in_channels = 1, out_channels = 1,
      W = \<lparr>dims4 = (1, 1, 2, 2), data4 = [[[[1, 2], [3, 4]]]]\<rparr>, cache = Some \<lparr>dims3 = (1, 4, 4), data3 = [[[0, 0, 0, 0], [0, 1, 2, 0], [0, 3, 4, 0], [0, 0, 0, 0]]]\<rparr>, gradW = None\<rparr>"
  let ?x = "\<lparr>dims3 = (1, 2, 2), data3 = [[[1, 2], [3, 4]]]\<rparr>"
  let ?y = "\<lparr>dims3 = (1, 3, 3), data3 = [[[4, 11, 6], [14, 30, 14], [6, 11, 4]]]\<rparr>"
  let ?dl = "\<lparr>dims3 = (1, 3, 3), data3 = [[[1, 0, 0], [0, 1, 0], [0, 0, 0]]]\<rparr>"
  have "\<exists>g dW. convLayer_backward ?L1 ?dl = Inr (g, ?L1\<lparr>gradW := Some dW\<rparr>) \<and>
     dims4 dW = (1, 1, 2, 2) \<and>
     (\<forall>c<1. \<forall>d<1. \<forall>di<2. \<forall>dj<2.
        at4 dW c d di dj =
          (\<Sum>h<(2 + 2 * 1 - 2) div 1 + 1. \<Sum>w<(2 + 2 * 1 - 2) div 1 + 1.
             at3 (np_pad 1 ?x) d (h * 1 + di) (w * 1 + dj) * at3 ?dl c h w)) \<and>
     ((0::nat) < 1 \<longrightarrow> dims3 g = (1, 2, 2) \<and>
        (\<forall>d<1. \<forall>r<2. \<forall>q<2.
           at3 g d r q =
             (\<Sum>h<(2 + 2 * 1 - 2) div 1 + 1. \<Sum>w<(2 + 2 * 1 - 2) div 1 + 1.
                dx_term ?L 1 ?dl h w d (r + 1) (q + 1))))"
  proof (rule convLayer_backward_gradients[where y = ?y and D = 1 and H = 2 and Wd = 2
        and x = ?x])
    show "convLayer_call ?L ?x = Inr (?y, ?L1)" by (rule f)
  qed simp_all
  then obtain g dW where b: "convLayer_backward ?L1 ?dl = Inr (g, ?L1\<lparr>gradW := Some dW\<rparr>)"
      "dims4 dW = (1, 1, 2, 2)" "dims3 g = (1, 2, 2)"
    and dW: "\<And>c d di dj. c < 1 \<Longrightarrow> d < 1 \<Longrightarrow> di < 2 \<Longrightarrow> dj < 2 \<Longrightarrow>
        at4 dW c d di dj =
          (\<Sum>h<3. \<Sum>w<3. at3 (np_pad 1 ?x) d (h * 1 + di) (w * 1 + dj) * at3 ?dl c h w)"
    and g: "\<And>d r q. d < 1 \<Longrightarrow> r < 2 \<Longrightarrow> q < 2 \<Longrightarrow>
           at3 g d r q = (\<Sum>h<3. \<Sum>w<3. dx_term ?L 1 ?dl h w d (r + 1) (q + 1))"
    by auto
  have ev: "at4 dW 0 0 0 0 = 1" "at4 dW 0 0 1 1 = 5"
    using dW[of 0 0 0 0] dW[of 0 0 1 1]
    by (simp_all add: np_pad_def tab3_def at3_def lessThan_Suc eval_nat_numeral)
  have eg: "at3 g 0 0 0 = 5" "at3 g 0 0 1 = 2"
    using g[of 0 0 0] g[of 0 0 1]
    by (simp_all add: dx_term_def at3_def at4_def lessThan_Suc eval_nat_numeral)
  show ?thesis
    using f b ev eg by blast
qed

text \<open>
  Claim C2 as stated, for every input, fails on an input with \<open>Wd < H\<close>: a 2x2 kernel on
  a 2x1 image. The forward call returns (the clipped slice of width 1 is broadcast
  against the kernel), and \<^verbatim>\<open>backward\<close> on a delta of the output's shape raises
  \<open>ValueError\<close>, since the 2x2 sum cannot be added into the clipped 2x1 window.
\<close>

theorem convLayer_backward_nonsquare_raises:
  "convLayer_call \<lparr>kernelsize = 2, stride = 1, pad = 0, in_channels = 1, out_channels = 1,
      W = \<lparr>dims4 = (1, 1, 2, 2), data4 = [[[[1, 1], [1, 1]]]]\<rparr>, cache = None, gradW = None\<rparr>
      \<lparr>dims3 = (1, 2, 1), data3 = [[[1], [3]]]\<rparr> =
    Inr (\<lparr>dims3 = (1, 1, 1), data3 = [[[8]]]\<rparr>,
      \<lparr>kernelsize = 2, stride = 1, pad = 0, in_channels = 1, out_channels = 1,
      W = \<lparr>dims4 = (1, 1, 2, 2), data4 = [[[[1, 1], [1, 1]]]]\<rparr>,
      cache = Some \<lparr>dims3 = (1, 2, 1), data3 = [[[1], [3]]]\<rparr>, gradW = None\<rparr>) \<and>
   convLayer_backward \<lparr>kernelsize = 2, stride = 1, pad = 0, in_channels = 1, out_channels = 1,
      W = \<lparr>dims4 = (1, 1, 2, 2), data4 = [[[[1, 1], [1, 1]]]]\<rparr>,
      cache = Some \<lparr>dims3 = (1, 2, 1), data3 = [[[1], [3]]]\<rparr>, gradW = None\<rparr>
      \<lparr>dims3 = (1, 1, 1), data3 = [[[1]]]\<rparr> = Inl ValueError"
  by (simp add: convLayer_call_def convLayer_backward_def np_pad_def np_zeros3_def np_zeros4_def
      conv_pixel_def conv_back_pixel_def slice3_def col3_def np_mul4_col_def np_sum0_def
      islice_add_def
      slice_len_def np_mul43_def bdim_def bidx_def tab3_def tab4_def np_sum123_def iadd_col_def
      bto_def at3_def at4_def upt_conv_Cons)

text \<open>
  With padding 0 the crop \<^verbatim>\<open>dX[:, 0:-0, 0:-0]\<close> is \<^verbatim>\<open>dX[:, 0:0, 0:0]\<close>: whenever
  the loops of \<^verbatim>\<open>backward\<close> complete, the returned tensor has no rows and no columns.
\<close>

lemma convLayer_backward_pad0_shape:
  assumes "dims4 (W L) = (C, D, kernelsize L, kernelsize L)" and "0 < C"
    and "cache L = Some x" and "dims3 x = (D, Hp, Wp)" and "dims3 delta = (C, n, m)"
    and "\<And>h. h < n \<Longrightarrow> h * stride L + kernelsize L \<le> Hp"
    and "\<And>w. w < m \<Longrightarrow> w * stride L + kernelsize L \<le> Wp"
    and "pad L = 0"
  shows "\<exists>g L'. convLayer_backward L delta = Inr (g, L') \<and> dims3 g = (D, 0, 0)"
proof -
  from convLayer_backward_correct[OF assms(1-7)] obtain dX dW where
    "convLayer_backward L delta = Inr (np_crop (pad L) dX, L\<lparr>gradW := Some dW\<rparr>)"
    "dims3 dX = (D, Hp, Wp)"
    by blast
  then show ?thesis
    using np_crop_zero[of dX D Hp Wp] assms(8) by auto
qed

text \<open>
  Claim C3 fails on the code. After a forward call on an input of shape \<open>(1, 1, 1)\<close>
  with padding 0, \<^verbatim>\<open>backward\<close> returns an empty tensor of shape \<open>(1, 0, 0)\<close>, not one
  of shape \<open>(1, 1, 1)\<close>. The weight-gradient is stored as usual.
\<close>

theorem convLayer_backward_pad0_empty:
  "convLayer_call \<lparr>kernelsize = 1, stride = 1, pad = 0, in_channels = 1, out_channels = 1,
      W = \<lparr>dims4 = (1, 1, 1, 1), data4 = [[[[2]]]]\<rparr>, cache = None, gradW = None\<rparr>
      \<lparr>dims3 = (1, 1, 1), data3 = [[[3]]]\<rparr> =
    Inr (\<lparr>dims3 = (1, 1, 1), data3 = [[[6]]]\<rparr>,
      \<lparr>kernelsize = 1, stride = 1, pad = 0, in_channels = 1, out_channels = 1,
      W = \<lparr>dims4 = (1, 1, 1, 1), data4 = [[[[2]]]]\<rparr>,
      cache = Some \<lparr>dims3 = (1, 1, 1), data3 = [[[3]]]\<rparr>, gradW = None\<rparr>) \<and>
   convLayer_backward \<lparr>kernelsize = 1, stride = 1, pad = 0, in_channels = 1, out_channels = 1,
      W = \<lparr>dims4 = (1, 1, 1, 1), data4 = [[[[2]]]]\<rparr>,
      cache = Some \<lparr>dims3 = (1, 1, 1), data3 = [[[3]]]\<rparr>, gradW = None\<rparr>
      \<lparr>dims3 = (1, 1, 1), data3 = [[[1]]]\<rparr> =
    Inr (\<lparr>dims3 = (1, 0, 0), data3 = [[]]\<rparr>,
      \<lparr>kernelsize = 1, stride = 1, pad = 0, in_channels = 1, out_channels = 1,
      W = \<lparr>dims4 = (1, 1, 1, 1), data4 = [[[[2]]]]\<rparr>,
      cache = Some \<lparr>dims3 = (1, 1, 1), data3 = [[[3]]]\<rparr>,
      gradW = Some \<lparr>dims4 = (1, 1, 1, 1), data4 = [[[[3]]]]\<rparr>\<rparr>)"
  by (simp add: convLayer_call_def convLayer_backward_def np_pad_def np_zeros3_def np_zeros4_def
      conv_pixel_def conv_back_pixel_def slice3_def col3_def np_mul4_col_def np_sum0_def
      islice_add_def np_mul3_col_def iadd4_def np_crop_def clip_def
      slice_len_def np_mul43_def bdim_def bidx_def tab3_def tab4_def np_sum123_def iadd_col_def
      bto_def at3_def at4_def upt_conv_Cons)

subsection \<open>Output size\<close>

lemma for_range_never:
  assumes "\<And>i t. body i t \<noteq> Inl e"
  shows "for_range xs body s \<noteq> Inl e"
proof (induction xs arbitrary: s)
  case Nil then show ?case by simp
next
  case (Cons i xs)
  then show ?case using assms[of i s] by (cases "body i s") auto
qed

lemma for_range_returned_all:
  assumes "for_range xs body s = Inr t" and "i \<in> set xs"
  shows "\<exists>s' t'. body i s' = Inr t'"
  using assms
proof (induction xs arbitrary: s)
  case Nil then show ?case by simp
next
  case (Cons a xs)
  from Cons.prems(1) obtain s1 where a: "body a s = Inr s1" and r: "for_range xs body s1 = Inr t"
    by (cases "body a s") auto
  show ?case
  proof (cases "i = a")
    case True with a show ?thesis by blast
  next
    case False
    with Cons.prems(2) have "i \<in> set xs" by simp
    from Cons.IH[OF r this] show ?thesis .
  qed
qed

lemma for_range_returns_or_raises:
  assumes "P s"
    and "\<And>i t. i \<in> set xs \<Longrightarrow> P t \<Longrightarrow> (\<exists>t'. body i t = Inr t' \<and> P t') \<or> body i t = Inl e"
  shows "(\<exists>t. for_range xs body s = Inr t \<and> P t) \<or> for_range xs body s = Inl e"
  using assms
proof (induction xs arbitrary: s)
  case Nil then show ?case by simp
next
  case (Cons a xs)
  from Cons.prems(2)[of a s] Cons.prems(1)
  consider t' where "body a s = Inr t'" "P t'" | "body a s = Inl e" by auto
  then show ?case
  proof cases
    case 1
    have "(\<exists>t. for_range xs body t' = Inr t \<and> P t) \<or> for_range xs body t' = Inl e"
      by (rule Cons.IH[OF 1(2)]) (rule Cons.prems(2), simp_all)
    with 1(1) show ?thesis by simp
  next
    case 2 then show ?thesis by simp
  qed
qed

lemma bdim_window:
  "bdim k (slice_len (j * s) (j * s + k) n) \<noteq> None \<longleftrightarrow>
     j * s + k \<le> n \<or> j * s + 1 = n \<or> k \<le> 1"
  by (auto simp: bdim_def slice_len_def min_def split: if_splits)

lemma conv_pixel_raises:
  assumes w: "dims4 (W L) = (C, D, kernelsize L, kernelsize L)"
    and x: "dims3 x = (D, Hp, Wp)"
    and clip: "\<not> (j * stride L + kernelsize L \<le> Wp \<or> j * stride L + 1 = Wp \<or> kernelsize L \<le> 1)"
  shows "conv_pixel L x i j out = Inl ValueError"
proof -
  from clip have "bdim (kernelsize L)
      (slice_len (j * stride L) (j * stride L + kernelsize L) Wp) = None"
    using bdim_window[of "kernelsize L" j "stride L" Wp] by simp
  then show ?thesis
    using w x by (simp add: conv_pixel_def Let_def np_mul43_def slice3_def split: option.splits)
qed

lemma conv_pixel_returns:
  assumes w: "dims4 (W L) = (C, D, kernelsize L, kernelsize L)"
    and x: "dims3 x = (D, Hp, Wp)"
    and fit: "i * stride L + kernelsize L \<le> Hp"
    and clip: "j * stride L + kernelsize L \<le> Wp \<or> j * stride L + 1 = Wp \<or> kernelsize L \<le> 1"
    and out: "dims3 out = (C, n, m)" and ij: "i < n" "j < m"
  shows "\<exists>t. conv_pixel L x i j out = Inr t \<and> dims3 t = (C, n, m)"
proof -
  let ?k = "kernelsize L" and ?s = "stride L"
  let ?sl = "slice3 x (i * ?s) (i * ?s + ?k) (j * ?s) (j * ?s + ?k)"
  define v where "v = slice_len (j * ?s) (j * ?s + ?k) Wp"
  have dsl: "dims3 ?sl = (D, ?k, v)"
    using x fit by (simp add: slice3_def slice_len_full v_def)
  from clip obtain bv where bv: "bdim ?k v = Some bv"
    using bdim_window[of ?k j ?s Wp] unfolding v_def by auto
  obtain wx where mul: "np_mul43 (W L) ?sl = Inr wx" and dwx: "dims4 wx = (C, D, ?k, bv)"
    using w dsl bv by (simp add: np_mul43_def)
  have len: "length (np_sum123 wx) = C"
    by (rule length_np_sum123[OF dwx])
  show ?thesis
    unfolding conv_pixel_def Let_def mul
    using out ij by (simp add: iadd_col_def len bto_def)
qed

lemma conv_loops_returns:
  assumes w: "dims4 (W L) = (C, D, kernelsize L, kernelsize L)"
    and x: "dims3 x = (D, Hp, Wp)"
    and fit: "\<And>i. i < n \<Longrightarrow> i * stride L + kernelsize L \<le> Hp"
    and clip: "\<And>j. j < m \<Longrightarrow>
        j * stride L + kernelsize L \<le> Wp \<or> j * stride L + 1 = Wp \<or> kernelsize L \<le> 1"
    and out: "dims3 out = (C, n, m)"
  shows "\<exists>t. for_range [0..<n] (\<lambda>i. for_range [0..<m] (\<lambda>j. conv_pixel L x i j)) out = Inr t \<and>
           dims3 t = (C, n, m)"
proof (rule for_range_upt[where P = "\<lambda>i (t::arr3). dims3 t = (C, n, m)"])
  show "dims3 out = (C, n, m)" by (rule out)
next
  fix i and t :: arr3 assume i: "i < n" and t: "dims3 t = (C, n, m)"
  have "\<exists>t'. for_range [0..<m] (\<lambda>j. conv_pixel L x i j) t = Inr t' \<and> dims3 t' = (C, n, m)"
  proof (rule for_range_upt[where P = "\<lambda>j (t::arr3). dims3 t = (C, n, m)"])
    show "dims3 t = (C, n, m)" by (rule t)
  next
    fix j and u :: arr3 assume j: "j < m" and u: "dims3 u = (C, n, m)"
    show "\<exists>t'. conv_pixel L x i j u = Inr t' \<and> dims3 t' = (C, n, m)"
      by (rule conv_pixel_returns[OF w x fit[OF i] clip[OF j] u i j])
  qed
  then show "\<exists>t'. for_range [0..<m] (\<lambda>j. conv_pixel L x i j) t = Inr t' \<and> dims3 t' = (C, n, m)" .
qed

lemma conv_loops_raises:
  assumes w: "dims4 (W L) = (C, D, kernelsize L, kernelsize L)"
    and x: "dims3 x = (D, Hp, Wp)"
    and fit: "\<And>i. i < n \<Longrightarrow> i * stride L + kernelsize L \<le> Hp"
    and j: "j < m" and n: "0 < n"
    and clip: "\<not> (j * stride L + kernelsize L \<le> Wp \<or> j * stride L + 1 = Wp \<or> kernelsize L \<le> 1)"
    and out: "dims3 out = (C, n, m)"
  shows "for_range [0..<n] (\<lambda>i. for_range [0..<m] (\<lambda>j. conv_pixel L x i j)) out = Inl ValueError"
proof -
  let ?row = "\<lambda>i. for_range [0..<m] (\<lambda>j. conv_pixel L x i j)"
  let ?P = "\<lambda>t::arr3. dims3 t = (C, n, m)"
  have row: "(\<exists>t'. ?row i t = Inr t' \<and> ?P t') \<or> ?row i t = Inl ValueError"
    if i: "i \<in> set [0..<n]" and t: "?P t" for i t
  proof (rule for_range_returns_or_raises[where P = ?P])
    show "?P t" by (rule t)
  next
    fix q u assume q: "q \<in> set [0..<m]" and u: "?P u"
    from i q have i': "i < n" and q': "q < m" by simp_all
    show "(\<exists>t'. conv_pixel L x i q u = Inr t' \<and> ?P t') \<or> conv_pixel L x i q u = Inl ValueError"
    proof (cases "q * stride L + kernelsize L \<le> Wp \<or> q * stride L + 1 = Wp \<or> kernelsize L \<le> 1")
      case True
      from conv_pixel_returns[OF w x fit[OF i'] True u i' q'] show ?thesis by blast
    next
      case False
      from conv_pixel_raises[OF w x False] show ?thesis by blast
    qed
  qed
  have "(\<exists>t. for_range [0..<n] ?row out = Inr t \<and> ?P t) \<or>
      for_range [0..<n] ?row out = Inl ValueError"
    by (rule for_range_returns_or_raises[where P = ?P, OF out row])
  moreover have "for_range [0..<n] ?row out \<noteq> Inr t" for t
  proof
    assume "for_range [0..<n] ?row out = Inr t"
    moreover from n have "0 \<in> set [0..<n]" by simp
    ultimately obtain s' t' where "?row 0 s' = Inr t'"
      using for_range_returned_all[of "[0..<n]" ?row out t 0] by blast
    moreover from j have "j \<in> set [0..<m]" by simp
    ultimately obtain s'' t'' where "conv_pixel L x 0 j s'' = Inr t''"
      using for_range_returned_all[of "[0..<m]" "\<lambda>j. conv_pixel L x 0 j" s' t' j] by blast
    with conv_pixel_raises[OF w x clip, of 0 s''] show False by simp
  qed
  ultimately show ?thesis by blast
qed

lemma conv_pixel_never_ShapeError: "conv_pixel L x i j out \<noteq> Inl ShapeError"
  by (auto simp: conv_pixel_def np_mul43_def iadd_col_def Let_def
      split: prod.splits option.splits sum.splits if_splits)

lemma convLayer_call_never_ShapeError: "convLayer_call L x \<noteq> Inl ShapeError"
proof -
  have "for_range is (\<lambda>i. for_range js (\<lambda>j. conv_pixel L y i j)) out \<noteq> Inl ShapeError"
    for "is" js y out
    by (intro for_range_never conv_pixel_never_ShapeError)
  then show ?thesis
    by (auto simp: convLayer_call_def Let_def split: prod.splits sum.splits)
qed

lemma floor_size_int:
  "\<lfloor>(real H + 2 * real p - real k) / real s\<rfloor> = (int H - int k + 2 * int p) div int s"
proof -
  have "real H + 2 * real p - real k = real_of_int (int H - int k + 2 * int p)" by simp
  moreover have "real s = real_of_int (int s)" by simp
  ultimately show ?thesis by (simp only: floor_divide_of_int_eq)
qed

lemma convLayer_call_loops:
  assumes x: "dims3 x = (D, H, Wd)" and s: "0 < stride L"
    and n: "int n = \<lfloor>(real H + 2 * real (pad L) - real (kernelsize L)) / real (stride L)\<rfloor> + 1"
  shows "convLayer_call L x =
     (case for_range [0..<n] (\<lambda>i. for_range [0..<n] (\<lambda>j. conv_pixel L (np_pad (pad L) x) i j))
             (np_zeros3 (out_channels L, n, n)) of
        Inl e \<Rightarrow> Inl e
      | Inr y \<Rightarrow> Inr (y, L\<lparr>cache := Some (np_pad (pad L) x)\<rparr>))"
proof -
  let ?k = "kernelsize L" and ?s = "stride L" and ?p = "pad L"
  have os: "(int H - int ?k + 2 * int ?p) div int ?s + 1 = int n"
    using n by (simp only: floor_size_int)
  have 1: "\<not> (int H - int ?k + 2 * int ?p) div int ?s + 1 < 0" unfolding os by simp
  have 2: "nat ((int H - int ?k + 2 * int ?p) div int ?s + 1) = n" unfolding os by simp
  have 3: "(?s = 0) = False" using s by simp
  show ?thesis
    by (simp only: convLayer_call_def x Let_def 1 2 3 prod.case if_False)
qed

lemma rows_fit:
  assumes s: "0 < s"
    and n: "int n = \<lfloor>(real H + 2 * real p - real k) / real s\<rfloor> + 1"
    and i: "i < n"
  shows "i * s + k \<le> H + 2 * p"
proof -
  have os: "(int H - int k + 2 * int p) div int s + 1 = int n"
    using n by (simp only: floor_size_int)
  from i os have "0 \<le> (int H - int k + 2 * int p) div int s" by simp
  with s have "0 \<le> int H - int k + 2 * int p" by (simp add: pos_imp_zdiv_nonneg_iff)
  then have k: "k \<le> H + 2 * p" by simp
  from os have "int n = int ((H + 2 * p - k) div s + 1)" by (simp only: output_size_nat[OF s k])
  then have "n = (H + 2 * p - k) div s + 1" by (simp only: of_nat_eq_iff)
  with i show ?thesis using window_fits[OF s k, of i] by simp
qed

lemma square_windows_fit:
  assumes "0 < s"
    and "int n = \<lfloor>(real H + 2 * real p - real k) / real s\<rfloor> + 1"
    and "H \<le> Wd" and "j < n"
  shows "j * s + k \<le> Wd + 2 * p"
  using rows_fit[OF assms(1,2,4)] assms(3) by simp

text \<open>
  Claim C4. The side the call allocates is \<open>floor((H + 2p - k) / s) + 1\<close>, computed from the
  first spatial axis alone. For a layer with weights of shape \<open>(C, D, k, k)\<close> and stride
  \<open>s \<ge> 1\<close>, and an input of shape \<open>(D, H, Wd)\<close> for which that number is a natural number
  \<open>n\<close> (zero included), the call returns exactly when NumPy can multiply every window by the
  kernel: each window \<open>j < n\<close> along the last axis lies inside the padded width, or is clipped
  by it to a single column, or the kernel has at most one column. Then the output has shape
  \<open>(C, n, n)\<close>, whether or not \<open>s\<close> divides \<open>H + 2p - k\<close>; otherwise the call raises
  \<^verbatim>\<open>ValueError\<close>. By \<open>square_windows_fit\<close> every window lies inside the padded width when
  \<open>H \<le> Wd\<close>.

  The second half of the claim is conditioned on a strict mode. Neither the constructor nor
  the call takes such an argument, so no call requests it; the first conjunct records that
  no call at all fails with \<^verbatim>\<open>ShapeError\<close>.
\<close>

theorem convLayer_call_output_size:
  "convLayer_call L x \<noteq> Inl ShapeError \<and>
   (kernelsize L = k \<and> stride L = s \<and> pad L = p \<and> in_channels L = D \<and>
    out_channels L = C \<and> dims4 (W L) = (C, D, k, k) \<and> dims3 x = (D, H, Wd) \<and>
    0 < s \<and> int n = \<lfloor>(real H + 2 * real p - real k) / real s\<rfloor> + 1
    \<longrightarrow> (if \<forall>j<n. j * s + k \<le> Wd + 2 * p \<or> j * s + 1 = Wd + 2 * p \<or> k \<le> 1
         then \<exists>y L'. convLayer_call L x = Inr (y, L') \<and> dims3 y = (C, n, n)
         else convLayer_call L x = Inl ValueError))"
proof (intro conjI impI)
  show "convLayer_call L x \<noteq> Inl ShapeError" by (rule convLayer_call_never_ShapeError)
next
  assume h: "kernelsize L = k \<and> stride L = s \<and> pad L = p \<and> in_channels L = D \<and>
    out_channels L = C \<and> dims4 (W L) = (C, D, k, k) \<and> dims3 x = (D, H, Wd) \<and>
    0 < s \<and> int n = \<lfloor>(real H + 2 * real p - real k) / real s\<rfloor> + 1"
  then have L: "kernelsize L = k" "stride L = s" "pad L = p" "out_channels L = C"
    and w: "dims4 (W L) = (C, D, kernelsize L, kernelsize L)"
    and x: "dims3 x = (D, H, Wd)" and s: "0 < stride L"
    and n: "int n = \<lfloor>(real H + 2 * real (pad L) - real (kernelsize L)) / real (stride L)\<rfloor> + 1"
    by simp_all
  let ?xp = "np_pad (pad L) x"
  let ?loops = "for_range [0..<n] (\<lambda>i. for_range [0..<n] (\<lambda>j. conv_pixel L ?xp i j))
      (np_zeros3 (out_channels L, n, n))"
  note call = convLayer_call_loops[OF x s n]
  have xp: "dims3 ?xp = (D, H + 2 * pad L, Wd + 2 * pad L)" by (rule np_pad_dims[OF x])
  have fit: "i * stride L + kernelsize L \<le> H + 2 * pad L" if "i < n" for i
    by (rule rows_fit[OF s n that])
  have out: "dims3 (np_zeros3 (out_channels L, n, n)) = (C, n, n)"
    using L by (simp add: np_zeros3_def)
  show "if \<forall>j<n. j * s + k \<le> Wd + 2 * p \<or> j * s + 1 = Wd + 2 * p \<or> k \<le> 1
         then \<exists>y L'. convLayer_call L x = Inr (y, L') \<and> dims3 y = (C, n, n)
         else convLayer_call L x = Inl ValueError"
  proof (cases "\<forall>j<n. j * s + k \<le> Wd + 2 * p \<or> j * s + 1 = Wd + 2 * p \<or> k \<le> 1")
    case True
    then have clip: "j * stride L + kernelsize L \<le> Wd + 2 * pad L \<or>
        j * stride L + 1 = Wd + 2 * pad L \<or> kernelsize L \<le> 1" if "j < n" for j
      using that L by simp
    from conv_loops_returns[OF w xp fit clip out]
    obtain t where "?loops = Inr t" "dims3 t = (C, n, n)" by blast
    with call have "convLayer_call L x = Inr (t, L\<lparr>cache := Some ?xp\<rparr>) \<and> dims3 t = (C, n, n)"
      by simp
    with True show ?thesis by auto
  next
    case False
    then obtain j where j: "j < n"
      and clip: "\<not> (j * stride L + kernelsize L \<le> Wd + 2 * pad L \<or>
        j * stride L + 1 = Wd + 2 * pad L \<or> kernelsize L \<le> 1)"
      using L by auto
    from j have "0 < n" by simp
    from conv_loops_raises[OF w xp fit j this clip out]
    have "?loops = Inl ValueError" by simp
    with call have "convLayer_call L x = Inl ValueError" by simp
    with False show ?thesis by simp
  qed
qed


text \<open>
  The theorem at four inputs, all with one channel and no padding: \<open>k = 2\<close>, \<open>s = 2\<close> on a
  5x5 image, where 2 does not divide 3 and the side is 2; \<open>k = 2\<close>, \<open>s = 1\<close> on a 1x1 image,
  where the side is 0; \<open>k = 2\<close>, \<open>s = 1\<close> on a 4x3 image, where the last window is clipped to
  one column and the side is 3; and \<open>k = 2\<close>, \<open>s = 1\<close> on a 4x2 image, where the last window
  is empty and the call raises.
\<close>

theorem convLayer_call_output_size_witness:
  "\<not> (2::nat) dvd 5 + 2 * 0 - 2 \<and>
   convLayer_call \<lparr>kernelsize = 2, stride = 2, pad = 0, in_channels = 1, out_channels = 1,
      W = \<lparr>dims4 = (1, 1, 2, 2), data4 = [[[[1, 1], [1, 1]]]]\<rparr>, cache = None, gradW = None\<rparr>
      \<lparr>dims3 = (1, 5, 5), data3 = [[[1, 2, 3, 4, 5], [6, 7, 8, 9, 10], [11, 12, 13, 14, 15],
        [16, 17, 18, 19, 20], [21, 22, 23, 24, 25]]]\<rparr> \<noteq> Inl ShapeError \<and>
   (\<exists>y L'. convLayer_call \<lparr>kernelsize = 2, stride = 2, pad = 0, in_channels = 1, out_channels = 1,
      W = \<lparr>dims4 = (1, 1, 2, 2), data4 = [[[[1, 1], [1, 1]]]]\<rparr>, cache = None, gradW = None\<rparr>
      \<lparr>dims3 = (1, 5, 5), data3 = [[[1, 2, 3, 4, 5], [6, 7, 8, 9, 10], [11, 12, 13, 14, 15],
        [16, 17, 18, 19, 20], [21, 22, 23, 24, 25]]]\<rparr> = Inr (y, L') \<and> dims3 y = (1, 2, 2)) \<and>
   (\<exists>y L'. convLayer_call \<lparr>kernelsize = 2, stride = 1, pad = 0, in_channels = 1, out_channels = 1,
      W = \<lparr>dims4 = (1, 1, 2, 2), data4 = [[[[1, 1], [1, 1]]]]\<rparr>, cache = None, gradW = None\<rparr>
      \<lparr>dims3 = (1, 1, 1), data3 = [[[5]]]\<rparr> = Inr (y, L') \<and> dims3 y = (1, 0, 0)) \<and>
   (\<exists>y L'. convLayer_call \<lparr>kernelsize = 2, stride = 1, pad = 0, in_channels = 1, out_channels = 1,
      W = \<lparr>dims4 = (1, 1, 2, 2), data4 = [[[[1, 1], [1, 1]]]]\<rparr>, cache = None, gradW = None\<rparr>
      \<lparr>dims3 = (1, 4, 3), data3 = [[[1, 2, 3], [4, 5, 6], [7, 8, 9], [10, 11, 12]]]\<rparr> = Inr (y, L') \<and> dims3 y = (1, 3, 3)) \<and>
   convLayer_call \<lparr>kernelsize = 2, stride = 1, pad = 0, in_channels = 1, out_channels = 1,
      W = \<lparr>dims4 = (1, 1, 2, 2), data4 = [[[[1, 1], [1, 1]]]]\<rparr>, cache = None, gradW = None\<rparr>
      \<lparr>dims3 = (1, 4, 2), data3 = [[[1, 2], [3, 4], [5, 6], [7, 8]]]\<rparr> = Inl ValueError"
proof -
  let ?La = "\<lparr>kernelsize = 2, stride = 2, pad = 0, in_channels = 1, out_channels = 1,
      W = \<lparr>dims4 = (1, 1, 2, 2), data4 = [[[[1, 1], [1, 1]]]]\<rparr>, cache = None, gradW = None\<rparr>"
  let ?xa = "\<lparr>dims3 = (1, 5, 5), data3 = [[[1, 2, 3, 4, 5], [6, 7, 8, 9, 10], [11, 12, 13, 14, 15],
        [16, 17, 18, 19, 20], [21, 22, 23, 24, 25]]]\<rparr>"
  let ?Lb = "\<lparr>kernelsize = 2, stride = 1, pad = 0, in_channels = 1, out_channels = 1,
      W = \<lparr>dims4 = (1, 1, 2, 2), data4 = [[[[1, 1], [1, 1]]]]\<rparr>, cache = None, gradW = None\<rparr>"
  let ?xz = "\<lparr>dims3 = (1, 1, 1), data3 = [[[5]]]\<rparr>"
  let ?xc = "\<lparr>dims3 = (1, 4, 3), data3 = [[[1, 2, 3], [4, 5, 6], [7, 8, 9], [10, 11, 12]]]\<rparr>"
  let ?xe = "\<lparr>dims3 = (1, 4, 2), data3 = [[[1, 2], [3, 4], [5, 6], [7, 8]]]\<rparr>"
  note ta = convLayer_call_output_size[where L = ?La and x = ?xa and k = 2 and s = 2 and p = 0
      and D = 1 and C = 1 and H = 5 and Wd = 5 and n = 2]
  note tz = convLayer_call_output_size[where L = ?Lb and x = ?xz and k = 2 and s = 1 and p = 0
      and D = 1 and C = 1 and H = 1 and Wd = 1 and n = 0]
  note tc = convLayer_call_output_size[where L = ?Lb and x = ?xc and k = 2 and s = 1 and p = 0
      and D = 1 and C = 1 and H = 4 and Wd = 3 and n = 3]
  note te = convLayer_call_output_size[where L = ?Lb and x = ?xe and k = 2 and s = 1 and p = 0
      and D = 1 and C = 1 and H = 4 and Wd = 2 and n = 3]
  have a: "convLayer_call ?La ?xa \<noteq> Inl ShapeError"
    using ta by (rule conjunct1)
  have "if \<forall>j<2. (j::nat) * 2 + 2 \<le> 5 + 2 * 0 \<or> j * 2 + 1 = 5 + 2 * 0 \<or> (2::nat) \<le> 1
      then \<exists>y L'. convLayer_call ?La ?xa = Inr (y, L') \<and> dims3 y = (1, 2, 2)
      else convLayer_call ?La ?xa = Inl ValueError"
    by (rule mp[OF conjunct2[OF ta]]) (simp only: floor_size_int, simp)
  moreover have "\<forall>j<2. (j::nat) * 2 + 2 \<le> 5 + 2 * 0 \<or> j * 2 + 1 = 5 + 2 * 0 \<or> (2::nat) \<le> 1"
    by presburger
  ultimately have b: "\<exists>y L'. convLayer_call ?La ?xa = Inr (y, L') \<and> dims3 y = (1, 2, 2)"
    by (simp only: if_True)
  have "if \<forall>j<0. (j::nat) * 1 + 2 \<le> 1 + 2 * 0 \<or> j * 1 + 1 = 1 + 2 * 0 \<or> (2::nat) \<le> 1
      then \<exists>y L'. convLayer_call ?Lb ?xz = Inr (y, L') \<and> dims3 y = (1, 0, 0)
      else convLayer_call ?Lb ?xz = Inl ValueError"
    by (rule mp[OF conjunct2[OF tz]]) (simp only: floor_size_int, simp)
  moreover have "\<forall>j<0. (j::nat) * 1 + 2 \<le> 1 + 2 * 0 \<or> j * 1 + 1 = 1 + 2 * 0 \<or> (2::nat) \<le> 1"
    by simp
  ultimately have z: "\<exists>y L'. convLayer_call ?Lb ?xz = Inr (y, L') \<and> dims3 y = (1, 0, 0)"
    by (simp only: if_True)
  have "if \<forall>j<3. (j::nat) * 1 + 2 \<le> 3 + 2 * 0 \<or> j * 1 + 1 = 3 + 2 * 0 \<or> (2::nat) \<le> 1
      then \<exists>y L'. convLayer_call ?Lb ?xc = Inr (y, L') \<and> dims3 y = (1, 3, 3)
      else convLayer_call ?Lb ?xc = Inl ValueError"
    by (rule mp[OF conjunct2[OF tc]]) (simp only: floor_size_int, simp)
  moreover have "\<forall>j<3. (j::nat) * 1 + 2 \<le> 3 + 2 * 0 \<or> j * 1 + 1 = 3 + 2 * 0 \<or> (2::nat) \<le> 1"
    by presburger
  ultimately have c: "\<exists>y L'. convLayer_call ?Lb ?xc = Inr (y, L') \<and> dims3 y = (1, 3, 3)"
    by (simp only: if_True)
  have "if \<forall>j<3. (j::nat) * 1 + 2 \<le> 2 + 2 * 0 \<or> j * 1 + 1 = 2 + 2 * 0 \<or> (2::nat) \<le> 1
      then \<exists>y L'. convLayer_call ?Lb ?xe = Inr (y, L') \<and> dims3 y = (1, 3, 3)
      else convLayer_call ?Lb ?xe = Inl ValueError"
    by (rule mp[OF conjunct2[OF te]]) (simp only: floor_size_int, simp)
  moreover have "\<not> (\<forall>j<3. (j::nat) * 1 + 2 \<le> 2 + 2 * 0 \<or> j * 1 + 1 = 2 + 2 * 0 \<or> (2::nat) \<le> 1)"
    by presburger
  ultimately have e: "convLayer_call ?Lb ?xe = Inl ValueError"
    by (simp only: if_False)
  have d: "\<not> (2::nat) dvd 5 + 2 * 0 - 2" by simp
  show ?thesis using a b z c e d by blast
qed

text \<open>
  Claim C4 as stated, for every input shape: a 3x3 kernel with stride 1 and no padding over
  an image of shape \<open>(1, 4, 3)\<close>. The formula gives the side 2, but the second window of the
  first row reaches past the three columns; it is clipped to two columns, which do not
  broadcast against the three of the kernel, and the call raises instead of returning an
  output of side 2.
\<close>

theorem convLayer_call_4x3_raises:
  "\<lfloor>(real 4 + 2 * real 0 - real 3) / real 1\<rfloor> + 1 = (2::int) \<and>
   convLayer_call \<lparr>kernelsize = 3, stride = 1, pad = 0, in_channels = 1, out_channels = 1,
      W = \<lparr>dims4 = (1, 1, 3, 3), data4 = [[[[1, 1, 1], [1, 1, 1], [1, 1, 1]]]]\<rparr>,
      cache = None, gradW = None\<rparr>
      \<lparr>dims3 = (1, 4, 3), data3 = [[[1, 2, 3], [4, 5, 6], [7, 8, 9], [10, 11, 12]]]\<rparr>
    = Inl ValueError"
  by (simp add: convLayer_call_def np_pad_def np_zeros3_def conv_pixel_def slice3_def
      slice_len_def np_mul43_def bdim_def bidx_def tab3_def tab4_def np_sum123_def iadd_col_def
      bto_def at3_def at4_def upt_conv_Cons)

subsection \<open>Max pooling\<close>

lemma upt_2: "[0..<2] = [0, 1]"
  by (simp add: upt_rec)

lemma in_window_iff: "2 * i \<le> r \<and> r < 2 * i + 2 \<longleftrightarrow> r div 2 = (i::nat)"
  by auto

lemma np_amax12_full:
  assumes "dims3 xs = (D, 2, 2)"
  shows "np_amax12 xs = Inr (map (\<lambda>d. max (max (at3 xs d 0 0) (at3 xs d 0 1))
                                         (max (at3 xs d 1 0) (at3 xs d 1 1))) [0..<D])"
  using assms by (simp add: np_amax12_def upt_2 max.assoc)

lemma maxpool_window_full:
  assumes x: "dims3 x = (D, H, Wd)" and fit: "2 * i + 2 \<le> H" "2 * j + 2 \<le> Wd"
    and out: "dims3 out = (D, oh, ow)" and ij: "i < oh" "j < ow"
    and c: "dims3 c = (D, H, Wd)"
  shows "\<exists>out' c'. maxpool_window x i j (out, c) = Inr (out', c') \<and>
     dims3 out' = (D, oh, ow) \<and> dims3 c' = (D, H, Wd) \<and>
     (\<forall>d<D. \<forall>r<oh. \<forall>q<ow. at3 out' d r q =
        (if r = i \<and> q = j then win_max x d i j else at3 out d r q)) \<and>
     (\<forall>d<D. \<forall>r<H. \<forall>q<Wd. at3 c' d r q =
        (if r div 2 = i \<and> q div 2 = j then max_mask x d r q else at3 c d r q))"
proof -
  define sl where "sl = slice3 x (i * 2) (i * 2 + 2) (j * 2) (j * 2 + 2)"
  have dsl: "dims3 sl = (D, 2, 2)"
    using x fit by (simp add: sl_def slice3_def slice_len_def)
  have sl_at: "at3 sl d a b = at3 x d (2 * i + a) (2 * j + b)" if "d < D" "a < 2" "b < 2" for d a b
    using that x fit by (simp add: sl_def slice3_def slice_len_def mult.commute)
  let ?m = "map (\<lambda>d. win_max x d i j) [0..<D]"
  have "np_amax12 sl = Inr (map (\<lambda>d. max (max (at3 sl d 0 0) (at3 sl d 0 1))
                                         (max (at3 sl d 1 0) (at3 sl d 1 1))) [0..<D])"
    by (rule np_amax12_full[OF dsl])
  also have "map (\<lambda>d. max (max (at3 sl d 0 0) (at3 sl d 0 1))
                          (max (at3 sl d 1 0) (at3 sl d 1 1))) [0..<D] = ?m"
  proof (rule map_cong)
    fix d assume "d \<in> set [0..<D]"
    then have d: "d < D" by simp
    show "max (max (at3 sl d 0 0) (at3 sl d 0 1)) (max (at3 sl d 1 0) (at3 sl d 1 1))
        = win_max x d i j"
      using sl_at[OF d, of 0 0] sl_at[OF d, of 0 1] sl_at[OF d, of 1 0] sl_at[OF d, of 1 1]
      by (simp add: win_max_def)
  qed simp
  finally have amax: "np_amax12 sl = Inr ?m" .
  let ?out' = "tab3 (D, oh, ow)
               (\<lambda>c r q. if r = i \<and> q = j then ?m ! bidx (length ?m) c else at3 out c r q)"
  have sc: "set_col out i j ?m = Inr ?out'"
    using out ij by (simp add: set_col_def)
  have col: "col3 ?out' i j = ?m"
    using ij by (auto simp: col3_def intro!: map_cong)
  have "\<exists>idx. np_where_eq sl ?m = Inr idx \<and> dims3 idx = (D, 2, 2) \<and>
      (\<forall>d<D. \<forall>a<2. \<forall>b<2. at3 idx d a b =
         (if at3 x d (2 * i + a) (2 * j + b) = win_max x d i j then 1 else 0))"
    using dsl by (simp add: np_where_eq_def sl_at)
  then obtain idx where wh: "np_where_eq sl ?m = Inr idx" and di: "dims3 idx = (D, 2, 2)"
    and idx_at: "\<And>d a b. d < D \<Longrightarrow> a < 2 \<Longrightarrow> b < 2 \<Longrightarrow> at3 idx d a b =
         (if at3 x d (2 * i + a) (2 * j + b) = win_max x d i j then 1 else 0)"
    by blast
  have sl2: "slice_len (i * 2) (i * 2 + 2) H = 2" "slice_len (j * 2) (j * 2 + 2) Wd = 2"
    using fit by (simp_all add: slice_len_def)
  have "\<exists>c'. islice_set c (i * 2) (i * 2 + 2) (j * 2) (j * 2 + 2) idx = Inr c' \<and>
      dims3 c' = (D, H, Wd) \<and>
      (\<forall>d<D. \<forall>r<H. \<forall>q<Wd. at3 c' d r q =
         (if i * 2 \<le> r \<and> r < i * 2 + 2 \<and> j * 2 \<le> q \<and> q < j * 2 + 2
          then at3 idx (bidx D d) (bidx 2 (r - i * 2)) (bidx 2 (q - j * 2))
          else at3 c d r q))"
    unfolding islice_set_def c di prod.case sl2 by simp
  then obtain c' where st: "islice_set c (i * 2) (i * 2 + 2) (j * 2) (j * 2 + 2) idx = Inr c'"
    and dc': "dims3 c' = (D, H, Wd)"
    and c'_at: "\<And>d r q. d < D \<Longrightarrow> r < H \<Longrightarrow> q < Wd \<Longrightarrow> at3 c' d r q =
         (if i * 2 \<le> r \<and> r < i * 2 + 2 \<and> j * 2 \<le> q \<and> q < j * 2 + 2
          then at3 idx (bidx D d) (bidx 2 (r - i * 2)) (bidx 2 (q - j * 2))
          else at3 c d r q)"
    by blast
  have run: "maxpool_window x i j (out, c) = Inr (?out', c')"
    by (simp only: maxpool_window_def Let_def prod.case sl_def[symmetric] amax sum.case sc col wh st)
  have o_at: "at3 ?out' d r q = (if r = i \<and> q = j then win_max x d i j else at3 out d r q)"
    if "d < D" "r < oh" "q < ow" for d r q
    using that by simp
  have c_at: "at3 c' d r q = (if r div 2 = i \<and> q div 2 = j then max_mask x d r q else at3 c d r q)"
    if d: "d < D" and r: "r < H" and q: "q < Wd" for d r q
  proof (cases "r div 2 = i \<and> q div 2 = j")
    case True
    then have w: "i * 2 \<le> r" "r < i * 2 + 2" "j * 2 \<le> q" "q < j * 2 + 2" by auto
    then have lt: "r - i * 2 < 2" "q - j * 2 < 2" by auto
    have rq: "2 * i + (r - i * 2) = r" "2 * j + (q - j * 2) = q" using w by auto
    have "at3 c' d r q = at3 idx d (r - i * 2) (q - j * 2)"
      using d r q w lt by (simp add: c'_at)
    also have "\<dots> = (if at3 x d r q = win_max x d i j then 1 else 0)"
      using d lt by (simp add: idx_at rq)
    finally show ?thesis using True by (simp add: max_mask_def)
  next
    case False
    then have "\<not> (i * 2 \<le> r \<and> r < i * 2 + 2 \<and> j * 2 \<le> q \<and> q < j * 2 + 2)" by auto
    then have "at3 c' d r q = at3 c d r q"
      using d r q by (simp only: c'_at if_False)
    with False show ?thesis by auto
  qed
  have "dims3 ?out' = (D, oh, ow)" by simp
  with run o_at c_at dc' show ?thesis by blast
qed

lemma maxpool_window_partial:
  assumes x: "dims3 x = (D, H, Wd)" and lo: "2 * i < H" "2 * j < Wd"
    and part: "\<not> (2 * i + 2 \<le> H \<and> 2 * j + 2 \<le> Wd)"
    and out: "dims3 out = (D, oh, ow)" and ij: "i < oh" "j < ow"
    and c: "dims3 c = (D, H, Wd)"
  shows "maxpool_window x i j (out, c) = Inl ValueError"
proof -
  let ?h = "slice_len (i * 2) (i * 2 + 2) H" and ?w = "slice_len (j * 2) (j * 2 + 2) Wd"
  let ?sl = "slice3 x (i * 2) (i * 2 + 2) (j * 2) (j * 2 + 2)"
  have dsl: "dims3 ?sl = (D, ?h, ?w)"
    using x by (simp add: slice3_def)
  have hw: "(?h = 1 \<or> ?h = 2) \<and> (?w = 1 \<or> ?w = 2) \<and> \<not> (?h = 2 \<and> ?w = 2)"
    using lo part by (auto simp: slice_len_def)
  obtain m where amax: "np_amax12 ?sl = Inr m" and lm: "length m = D"
    using hw dsl by (auto simp: np_amax12_def)
  obtain out' where sc: "set_col out i j m = Inr out'" and do': "dims3 out' = (D, oh, ow)"
    using out ij lm by (simp add: set_col_def)
  have lc: "length (col3 out' i j) = D"
    using do' by (simp add: col3_def)
  obtain idx where wh: "np_where_eq ?sl (col3 out' i j) = Inr idx" and di: "dims3 idx = (D, 2, 2)"
    using hw dsl lc by (auto simp: np_where_eq_def bdim_def)
  have st: "islice_set c (i * 2) (i * 2 + 2) (j * 2) (j * 2 + 2) idx = Inl ValueError"
    using c di hw by (auto simp: islice_set_def bto_def)
  show ?thesis
    by (simp only: maxpool_window_def Let_def prod.case amax sum.case sc wh st)
qed

lemma for_range_upt_returned:
  assumes "for_range [0..<n] body s = Inr t" and "P 0 s"
    and "\<And>i u u'. i < n \<Longrightarrow> P i u \<Longrightarrow> body i u = Inr u' \<Longrightarrow> P (Suc i) u'"
  shows "P n t"
  using assms(1,3)
proof (induction n arbitrary: t)
  case 0
  then show ?case using assms(2) by simp
next
  case (Suc n)
  from Suc.prems(1) obtain u where u: "for_range [0..<n] body s = Inr u" "body n u = Inr t"
    by (auto simp: for_range_append split: sum.splits)
  have "P n u"
    by (rule Suc.IH[OF u(1)]) (use Suc.prems(2) in auto)
  then show ?case
    using Suc.prems(2)[of n u t] u(2) by simp
qed

lemma maxpool_window_step:
  assumes x: "dims3 x = (D, H, Wd)"
    and out: "dims3 out = (D, (H + 1) div 2, (Wd + 1) div 2)"
    and ij: "i < (H + 1) div 2" "j < (Wd + 1) div 2"
    and c: "dims3 c = (D, H, Wd)"
    and run: "maxpool_window x i j (out, c) = Inr (out', c')"
  shows "2 * i + 2 \<le> H \<and> 2 * j + 2 \<le> Wd \<and>
     dims3 out' = (D, (H + 1) div 2, (Wd + 1) div 2) \<and> dims3 c' = (D, H, Wd) \<and>
     (\<forall>d<D. \<forall>r<(H + 1) div 2. \<forall>q<(Wd + 1) div 2. at3 out' d r q =
        (if r = i \<and> q = j then win_max x d i j else at3 out d r q)) \<and>
     (\<forall>d<D. \<forall>r<H. \<forall>q<Wd. at3 c' d r q =
        (if r div 2 = i \<and> q div 2 = j then max_mask x d r q else at3 c d r q))"
proof -
  have lo: "2 * i < H" "2 * j < Wd" using ij by auto
  have fit: "2 * i + 2 \<le> H \<and> 2 * j + 2 \<le> Wd"
  proof (rule ccontr)
    assume "\<not> (2 * i + 2 \<le> H \<and> 2 * j + 2 \<le> Wd)"
    from maxpool_window_partial[OF x lo this out ij c] run show False by simp
  qed
  from maxpool_window_full[OF x conjunct1[OF fit] conjunct2[OF fit] out ij c] run fit
  show ?thesis by auto
qed

lemma maxpool_row_returned:
  assumes x: "dims3 x = (D, H, Wd)"
    and out: "dims3 out = (D, (H + 1) div 2, (Wd + 1) div 2)"
    and i: "i < (H + 1) div 2"
    and c: "dims3 c = (D, H, Wd)"
    and run: "for_range [0..<(Wd + 1) div 2] (\<lambda>j. maxpool_window x i j) (out, c) = Inr (out', c')"
  shows "(\<forall>j<(Wd + 1) div 2. 2 * i + 2 \<le> H \<and> 2 * j + 2 \<le> Wd) \<and>
     dims3 out' = (D, (H + 1) div 2, (Wd + 1) div 2) \<and> dims3 c' = (D, H, Wd) \<and>
     (\<forall>d<D. \<forall>r<(H + 1) div 2. \<forall>q<(Wd + 1) div 2. at3 out' d r q =
        (if r = i then win_max x d i q else at3 out d r q)) \<and>
     (\<forall>d<D. \<forall>r<H. \<forall>q<Wd. at3 c' d r q =
        (if r div 2 = i then max_mask x d r q else at3 c d r q))"
proof -
  let ?oh = "(H + 1) div 2" and ?ow = "(Wd + 1) div 2"
  let ?P = "\<lambda>n t. (\<forall>j<n. 2 * i + 2 \<le> H \<and> 2 * j + 2 \<le> Wd) \<and>
     dims3 (fst t) = (D, ?oh, ?ow) \<and> dims3 (snd t) = (D, H, Wd) \<and>
     (\<forall>d<D. \<forall>r<?oh. \<forall>q<?ow. at3 (fst t) d r q =
        (if r = i \<and> q < n then win_max x d i q else at3 out d r q)) \<and>
     (\<forall>d<D. \<forall>r<H. \<forall>q<Wd. at3 (snd t) d r q =
        (if r div 2 = i \<and> q div 2 < n then max_mask x d r q else at3 c d r q))"
  have "?P ?ow (out', c')"
  proof (rule for_range_upt_returned[where P = ?P, OF run])
    show "?P 0 (out, c)" using out c by simp
  next
    fix j u u' assume j: "j < ?ow" and P: "?P j u" and b: "maxpool_window x i j u = Inr u'"
    obtain a b where u: "u = (a, b)" by (cases u)
    obtain a' b' where u': "u' = (a', b')" by (cases u')
    from P u have da: "dims3 a = (D, ?oh, ?ow)" and db: "dims3 b = (D, H, Wd)" by simp_all
    from maxpool_window_step[OF x da i j db b[unfolded u u']]
    have st: "2 * i + 2 \<le> H" "2 * j + 2 \<le> Wd"
      "dims3 a' = (D, ?oh, ?ow)" "dims3 b' = (D, H, Wd)"
      "\<forall>d<D. \<forall>r<?oh. \<forall>q<?ow. at3 a' d r q =
        (if r = i \<and> q = j then win_max x d i j else at3 a d r q)"
      "\<forall>d<D. \<forall>r<H. \<forall>q<Wd. at3 b' d r q =
        (if r div 2 = i \<and> q div 2 = j then max_mask x d r q else at3 b d r q)"
      by blast+
    show "?P (Suc j) u'"
      using st P unfolding u u' by (auto simp: less_Suc_eq)
  qed
  moreover have "q div 2 < ?ow" if "q < Wd" for q using that by auto
  ultimately show ?thesis by auto
qed

lemma MaxPool_call_returned:
  assumes x: "dims3 x = (D, H, Wd)"
    and run: "MaxPool_call M x = Inr (y, M')"
  shows "\<exists>c. M' = M\<lparr>mcache := Some c\<rparr> \<and>
     (\<forall>i<(H + 1) div 2. \<forall>j<(Wd + 1) div 2. 2 * i + 2 \<le> H \<and> 2 * j + 2 \<le> Wd) \<and>
     dims3 y = (D, (H + 1) div 2, (Wd + 1) div 2) \<and> dims3 c = (D, H, Wd) \<and>
     (\<forall>d<D. \<forall>i<(H + 1) div 2. \<forall>j<(Wd + 1) div 2. at3 y d i j = win_max x d i j) \<and>
     (\<forall>d<D. \<forall>r<H. \<forall>q<Wd. at3 c d r q = max_mask x d r q)"
proof -
  let ?oh = "(H + 1) div 2" and ?ow = "(Wd + 1) div 2"
  from run x obtain c where
    loops: "for_range [0..<?oh] (\<lambda>i. for_range [0..<?ow] (\<lambda>j. maxpool_window x i j))
              (np_zeros3 (D, ?oh, ?ow), np_zeros3 (D, H, Wd)) = Inr (y, c)"
    and M': "M' = M\<lparr>mcache := Some c\<rparr>"
    by (auto simp: MaxPool_call_def Let_def split: sum.splits)
  let ?Q = "\<lambda>n t. (\<forall>i<n. \<forall>j<?ow. 2 * i + 2 \<le> H \<and> 2 * j + 2 \<le> Wd) \<and>
     dims3 (fst t) = (D, ?oh, ?ow) \<and> dims3 (snd t) = (D, H, Wd) \<and>
     (\<forall>d<D. \<forall>r<?oh. \<forall>q<?ow. at3 (fst t) d r q = (if r < n then win_max x d r q else 0)) \<and>
     (\<forall>d<D. \<forall>r<H. \<forall>q<Wd. at3 (snd t) d r q = (if r div 2 < n then max_mask x d r q else 0))"
  have "?Q ?oh (y, c)"
  proof (rule for_range_upt_returned[where P = ?Q, OF loops])
    show "?Q 0 (np_zeros3 (D, ?oh, ?ow), np_zeros3 (D, H, Wd))"
      by (simp add: np_zeros3_def)
  next
    fix i u u' assume i: "i < ?oh" and Q: "?Q i u"
      and b: "for_range [0..<?ow] (\<lambda>j. maxpool_window x i j) u = Inr u'"
    obtain a b where u: "u = (a, b)" by (cases u)
    obtain a' b' where u': "u' = (a', b')" by (cases u')
    from Q u have da: "dims3 a = (D, ?oh, ?ow)" and db: "dims3 b = (D, H, Wd)" by simp_all
    from maxpool_row_returned[OF x da i db b[unfolded u u']]
    have st: "\<forall>j<?ow. 2 * i + 2 \<le> H \<and> 2 * j + 2 \<le> Wd"
      "dims3 a' = (D, ?oh, ?ow)" "dims3 b' = (D, H, Wd)"
      "\<forall>d<D. \<forall>r<?oh. \<forall>q<?ow. at3 a' d r q =
        (if r = i then win_max x d i q else at3 a d r q)"
      "\<forall>d<D. \<forall>r<H. \<forall>q<Wd. at3 b' d r q =
        (if r div 2 = i then max_mask x d r q else at3 b d r q)"
      by blast+
    show "?Q (Suc i) u'"
      using st Q unfolding u u' by (auto simp: less_Suc_eq)
  qed
  moreover have "r div 2 < ?oh" if "r < H" for r using that by auto
  ultimately show ?thesis using M' by auto
qed

lemma maxpool_loops_even_return:
  assumes x: "dims3 x = (D, 2 * h, 2 * w)"
  shows "\<exists>t. for_range [0..<h] (\<lambda>i. for_range [0..<w] (\<lambda>j. maxpool_window x i j))
              (np_zeros3 (D, h, w), np_zeros3 (D, 2 * h, 2 * w)) = Inr t"
proof -
  let ?I = "\<lambda>(n::nat) (t::arr3 \<times> arr3).
     dims3 (fst t) = (D, h, w) \<and> dims3 (snd t) = (D, 2 * h, 2 * w)"
  have row: "\<exists>t'. for_range [0..<w] (\<lambda>j. maxpool_window x i j) t = Inr t' \<and> ?I (Suc i) t'"
    if i: "i < h" and I: "?I i t" for i t
  proof -
    have "\<exists>t'. for_range [0..<w] (\<lambda>j. maxpool_window x i j) t = Inr t' \<and> ?I w t'"
    proof (rule for_range_upt[where P = ?I])
      show "?I 0 t" using I by simp
    next
      fix j u assume j: "j < w" and Iu: "?I j u"
      obtain a b where u: "u = (a, b)" by (cases u)
      from Iu u have da: "dims3 a = (D, h, w)" and db: "dims3 b = (D, 2 * h, 2 * w)" by simp_all
      have fit: "2 * i + 2 \<le> 2 * h" "2 * j + 2 \<le> 2 * w" using i j by auto
      from maxpool_window_full[OF x fit da i j db]
      show "\<exists>t'. maxpool_window x i j u = Inr t' \<and> ?I (Suc j) t'"
        unfolding u by auto
    qed
    then show ?thesis by simp
  qed
  have "\<exists>t. for_range [0..<h] (\<lambda>i. for_range [0..<w] (\<lambda>j. maxpool_window x i j))
              (np_zeros3 (D, h, w), np_zeros3 (D, 2 * h, 2 * w)) = Inr t \<and> ?I h t"
  proof (rule for_range_upt[where P = ?I])
    show "?I 0 (np_zeros3 (D, h, w), np_zeros3 (D, 2 * h, 2 * w))"
      by (simp add: np_zeros3_def)
  next
    fix i t assume "i < h" "?I i t"
    then show "\<exists>t'. for_range [0..<w] (\<lambda>j. maxpool_window x i j) t = Inr t' \<and> ?I (Suc i) t'"
      by (rule row)
  qed
  then show ?thesis by blast
qed

lemma MaxPool_call_even:
  assumes x: "dims3 x = (D, 2 * h, 2 * w)"
  shows "\<exists>y c. MaxPool_call M x = Inr (y, M\<lparr>mcache := Some c\<rparr>) \<and>
     dims3 y = (D, h, w) \<and> dims3 c = (D, 2 * h, 2 * w) \<and>
     (\<forall>d<D. \<forall>i<h. \<forall>j<w. at3 y d i j = win_max x d i j) \<and>
     (\<forall>d<D. \<forall>r<2 * h. \<forall>q<2 * w. at3 c d r q = max_mask x d r q)"
proof -
  have hw: "(2 * h + 1) div 2 = h" "(2 * w + 1) div 2 = w" by simp_all
  from maxpool_loops_even_return[OF x] obtain y c where
    "for_range [0..<h] (\<lambda>i. for_range [0..<w] (\<lambda>j. maxpool_window x i j))
              (np_zeros3 (D, h, w), np_zeros3 (D, 2 * h, 2 * w)) = Inr (y, c)"
    by force
  then have run: "MaxPool_call M x = Inr (y, M\<lparr>mcache := Some c\<rparr>)"
    by (simp add: MaxPool_call_def x hw)
  from MaxPool_call_returned[OF x run] obtain c' where
    c': "M\<lparr>mcache := Some c\<rparr> = M\<lparr>mcache := Some c'\<rparr>"
    "dims3 y = (D, h, w)" "dims3 c' = (D, 2 * h, 2 * w)"
    "\<forall>d<D. \<forall>i<h. \<forall>j<w. at3 y d i j = win_max x d i j"
    "\<forall>d<D. \<forall>r<2 * h. \<forall>q<2 * w. at3 c' d r q = max_mask x d r q"
    unfolding hw by blast
  from c'(1) have "c' = c"
    by (metis MaxPool.select_convs(1) MaxPool.surjective MaxPool.update_convs(1) option.inject)
  with c' run show ?thesis by blast
qed

lemma in_slice_iff:
  assumes "r < H"
  shows "i * 2 \<le> r \<and> r < i * 2 + slice_len (i * 2) (i * 2 + 2) H \<longleftrightarrow> r div 2 = i"
  using assms by (auto simp: slice_len_def)

lemma islice_mul_window:
  assumes c: "dims3 c = (D, H, Wd)" and dl: "dims3 dl = (D, n, m)"
  shows "\<exists>c'. islice_mul c (i * 2) (i * 2 + 2) (j * 2) (j * 2 + 2) (col3 dl i j) = Inr c' \<and>
     dims3 c' = (D, H, Wd) \<and>
     (\<forall>d<D. \<forall>r<H. \<forall>q<Wd. at3 c' d r q =
        (if r div 2 = i \<and> q div 2 = j then at3 c d r q * at3 dl d i j else at3 c d r q))"
proof -
  have len: "length (col3 dl i j) = D" by (rule length_col3[OF dl])
  let ?c' = "tab3 (D, H, Wd)
            (\<lambda>d r q. if i * 2 \<le> r \<and> r < i * 2 + slice_len (i * 2) (i * 2 + 2) H \<and>
                         j * 2 \<le> q \<and> q < j * 2 + slice_len (j * 2) (j * 2 + 2) Wd
                      then at3 c d r q * col3 dl i j ! bidx D d
                      else at3 c d r q)"
  have run: "islice_mul c (i * 2) (i * 2 + 2) (j * 2) (j * 2 + 2) (col3 dl i j) = Inr ?c'"
    unfolding islice_mul_def c prod.case len by simp
  have "at3 ?c' d r q =
        (if r div 2 = i \<and> q div 2 = j then at3 c d r q * at3 dl d i j else at3 c d r q)"
    if d: "d < D" and r: "r < H" and q: "q < Wd" for d r q
  proof -
    have "at3 ?c' d r q =
        (if (i * 2 \<le> r \<and> r < i * 2 + slice_len (i * 2) (i * 2 + 2) H) \<and>
            (j * 2 \<le> q \<and> q < j * 2 + slice_len (j * 2) (j * 2 + 2) Wd)
         then at3 c d r q * col3 dl i j ! bidx D d else at3 c d r q)"
      using d r q by (simp only: at3_tab3 conj_assoc)
    also have "\<dots> = (if r div 2 = i \<and> q div 2 = j then at3 c d r q * at3 dl d i j
                      else at3 c d r q)"
      unfolding in_slice_iff[OF r] in_slice_iff[OF q]
      using d by (simp add: col3_nth[OF dl])
    finally show ?thesis .
  qed
  moreover have "dims3 ?c' = (D, H, Wd)" by simp
  ultimately show ?thesis using run by blast
qed

lemma MaxPool_backward_correct:
  assumes M: "mcache M = Some c" and c: "dims3 c = (D, H, Wd)" and dl: "dims3 dl = (D, n, m)"
  shows "\<exists>g. MaxPool_backward M dl = Inr (g, M\<lparr>mcache := Some g\<rparr>) \<and> dims3 g = (D, H, Wd) \<and>
     (\<forall>d<D. \<forall>r<H. \<forall>q<Wd. at3 g d r q =
        (if r div 2 < n \<and> q div 2 < m then at3 c d r q * at3 dl d (r div 2) (q div 2)
         else at3 c d r q))"
proof -
  let ?body = "\<lambda>i j c. islice_mul c (i * 2) (i * 2 + 2) (j * 2) (j * 2 + 2) (col3 dl i j)"
  have row: "\<exists>t'. for_range [0..<m] (?body i) t = Inr t' \<and> dims3 t' = (D, H, Wd) \<and>
     (\<forall>d<D. \<forall>r<H. \<forall>q<Wd. at3 t' d r q =
        (if r div 2 = i \<and> q div 2 < m then at3 t d r q * at3 dl d i (q div 2)
         else at3 t d r q))"
    if t: "dims3 t = (D, H, Wd)" for i and t :: arr3
  proof -
    let ?P = "\<lambda>k (u::arr3). dims3 u = (D, H, Wd) \<and>
     (\<forall>d<D. \<forall>r<H. \<forall>q<Wd. at3 u d r q =
        (if r div 2 = i \<and> q div 2 < k then at3 t d r q * at3 dl d i (q div 2)
         else at3 t d r q))"
    have "\<exists>t'. for_range [0..<m] (?body i) t = Inr t' \<and> ?P m t'"
    proof (rule for_range_upt[where P = ?P])
      show "?P 0 t" using t by simp
    next
      fix j u assume j: "j < m" and P: "?P j u"
      from P have du: "dims3 u = (D, H, Wd)" by simp
      from islice_mul_window[OF du dl, of i j] obtain u' where
        u': "?body i j u = Inr u'" "dims3 u' = (D, H, Wd)"
        "\<forall>d<D. \<forall>r<H. \<forall>q<Wd. at3 u' d r q =
          (if r div 2 = i \<and> q div 2 = j then at3 u d r q * at3 dl d i j else at3 u d r q)"
        by blast
      have "?P (Suc j) u'"
        using u'(2,3) P by (auto simp: less_Suc_eq)
      with u'(1) show "\<exists>t'. ?body i j u = Inr t' \<and> ?P (Suc j) t'" by blast
    qed
    then show ?thesis by blast
  qed
  let ?Q = "\<lambda>k (u::arr3). dims3 u = (D, H, Wd) \<and>
     (\<forall>d<D. \<forall>r<H. \<forall>q<Wd. at3 u d r q =
        (if r div 2 < k \<and> q div 2 < m then at3 c d r q * at3 dl d (r div 2) (q div 2)
         else at3 c d r q))"
  have "\<exists>g. for_range [0..<n] (\<lambda>i. for_range [0..<m] (?body i)) c = Inr g \<and> ?Q n g"
  proof (rule for_range_upt[where P = ?Q])
    show "?Q 0 c" using c by simp
  next
    fix i u assume i: "i < n" and Q: "?Q i u"
    from Q have du: "dims3 u = (D, H, Wd)" by simp
    from row[OF du, of i] obtain u' where
      u': "for_range [0..<m] (?body i) u = Inr u'" "dims3 u' = (D, H, Wd)"
      "\<forall>d<D. \<forall>r<H. \<forall>q<Wd. at3 u' d r q =
        (if r div 2 = i \<and> q div 2 < m then at3 u d r q * at3 dl d i (q div 2)
         else at3 u d r q)"
      by blast
    have "?Q (Suc i) u'"
      using u'(2,3) Q by (auto simp: less_Suc_eq)
    with u'(1) show "\<exists>t'. for_range [0..<m] (?body i) u = Inr t' \<and> ?Q (Suc i) t'" by blast
  qed
  then obtain g where g: "for_range [0..<n] (\<lambda>i. for_range [0..<m] (?body i)) c = Inr g" "?Q n g"
    by blast
  have "MaxPool_backward M dl = Inr (g, M\<lparr>mcache := Some g\<rparr>)"
    by (simp only: MaxPool_backward_def M dl g(1) option.case prod.case sum.case)
  with g(2) show ?thesis by blast
qed

subsection \<open>The gradient check\<close>

lemma upd_at_comp: "upd_at i g (upd_at i f xs) = upd_at i (\<lambda>x. g (f x)) xs"
proof (cases "i < length xs")
  case True
  then show ?thesis by (simp add: upd_at_def)
next
  case False
  then have "xs[i := v] = xs" for v by (simp add: list_update_beyond)
  then show ?thesis by (simp add: upd_at_def)
qed

lemma upd_at_id: "f (xs ! i) = xs ! i \<Longrightarrow> upd_at i f xs = xs"
  by (simp add: upd_at_def)

lemma upd4_overwrite:
  "upd_at c (upd_at d (upd_at i (\<lambda>row. row[j := w])))
     (upd_at c (upd_at d (upd_at i (\<lambda>row. row[j := v]))) xs)
   = upd_at c (upd_at d (upd_at i (\<lambda>row. row[j := (w::real)]))) xs"
  by (simp add: upd_at_comp)

lemma upd4_same:
  "upd_at c (upd_at d (upd_at i (\<lambda>row. row[j := xs ! c ! d ! i ! j]))) xs = xs"
  by (intro upd_at_id list_update_id)

lemma setitem4_Inr:
  "setitem4 a c d i j v = Inr a' \<Longrightarrow>
     a' = a\<lparr>data4 := upd_at c (upd_at d (upd_at i (\<lambda>row. row[j := v]))) (data4 a)\<rparr>"
  by (auto simp: setitem4_def split: if_splits)

lemma convLayer_call_W: "convLayer_call L x = Inr (y, L') \<Longrightarrow> W L' = W L"
  by (auto simp: convLayer_call_def Let_def split: prod.splits if_splits sum.splits)

lemma convLayer_backward_W: "convLayer_backward L dl = Inr (g, L') \<Longrightarrow> W L' = W L"
  by (auto simp: convLayer_backward_def split: prod.splits option.splits sum.splits)

lemma model_forward_W:
  assumes "model_forward N x = Inr (y, N')"
  shows "W (conv1 N') = W (conv1 N) \<and> W (conv2 N') = W (conv2 N)"
  using assms
  by (auto simp: model_forward_def split: sum.splits prod.splits
      dest!: convLayer_call_W)

lemma forward_cost_W:
  assumes "forward_cost N x y = Inr (cost, N')"
  shows "W (conv1 N') = W (conv1 N) \<and> W (conv2 N') = W (conv2 N)"
  using assms
  by (auto simp: forward_cost_def split: sum.splits prod.splits dest!: model_forward_W)

lemma model_backward_W:
  assumes "model_backward N = Inr N'"
  shows "W (conv1 N') = W (conv1 N) \<and> W (conv2 N') = W (conv2 N)"
  using assms
  by (auto simp: model_backward_def split: sum.splits prod.splits option.splits
      dest!: convLayer_backward_W)

lemma set_weight_W:
  assumes "set_weight l c d i j v N = Inr N'"
  shows "W (get_layer l N') =
      (W (get_layer l N))\<lparr>data4 := upd_at c (upd_at d (upd_at i (\<lambda>row. row[j := v])))
                                      (data4 (W (get_layer l N)))\<rparr>"
    and "W (get_layer (if l = 0 then 1 else 0) N') = W (get_layer (if l = 0 then 1 else 0) N)"
  using assms
  by (auto simp: set_weight_def get_layer_def set_layer_def split: sum.splits
      dest!: setitem4_Inr)

lemma forward_cost_layer_W:
  "forward_cost N x y = Inr (cost, N') \<Longrightarrow> W (get_layer l N') = W (get_layer l N)"
  by (auto simp: get_layer_def dest: forward_cost_W)

lemma central_difference_W:
  assumes "central_difference l c d i j x y N = Inr (g, N')"
  shows "W (get_layer k N') = W (get_layer k N)"
proof -
  let ?w = "W (get_layer l N)"
  from assms obtain N1 c1 N2 N3 c2 N4 where
    o: "in4 ?w c d i j"
    and s1: "set_weight l c d i j (at4 ?w c d i j + epsilon) N = Inr N1"
    and f1: "forward_cost N1 x y = Inr (c1, N2)"
    and s2: "set_weight l c d i j (at4 ?w c d i j - epsilon) N2 = Inr N3"
    and f2: "forward_cost N3 x y = Inr (c2, N4)"
    and s3: "set_weight l c d i j (at4 ?w c d i j) N4 = Inr N'"
    by (auto simp: central_difference_def getitem4_def split: sum.splits if_splits prod.splits)
  let ?o = "if l = 0 then 1 else (0::nat)"
  have other: "W (get_layer ?o N') = W (get_layer ?o N)"
    using set_weight_W(2)[OF s1] set_weight_W(2)[OF s2] set_weight_W(2)[OF s3]
      forward_cost_layer_W[OF f1, of ?o] forward_cost_layer_W[OF f2, of ?o]
    by simp
  have "W (get_layer l N') =
      ?w\<lparr>data4 := upd_at c (upd_at d (upd_at i (\<lambda>row. row[j := at4 ?w c d i j]))) (data4 ?w)\<rparr>"
    using set_weight_W(1)[OF s1] set_weight_W(1)[OF s2] set_weight_W(1)[OF s3]
      forward_cost_layer_W[OF f1, of l] forward_cost_layer_W[OF f2, of l]
    by (simp add: upd4_overwrite)
  also have "\<dots> = ?w"
    by (simp add: at4_def upd4_same)
  finally have this_layer: "W (get_layer l N') = ?w" .
  have "get_layer k = get_layer l \<or> get_layer k = get_layer ?o"
    by (auto simp: get_layer_def fun_eq_iff)
  with this_layer other show ?thesis by auto
qed

lemma for_range_preserves:
  assumes "for_range xs body s = Inr t" and "I s"
    and "\<And>i u u'. body i u = Inr u' \<Longrightarrow> I u \<Longrightarrow> I u'"
  shows "I t"
  using assms(1,2)
proof (induction xs arbitrary: s)
  case Nil
  then show ?case by simp
next
  case (Cons i xs)
  from Cons.prems(1) obtain u where u: "body i s = Inr u" "for_range xs body u = Inr t"
    by (auto split: sum.splits)
  from assms(3)[OF u(1) Cons.prems(2)] have "I u" .
  from Cons.IH[OF u(2) this] show ?case .
qed

lemma check_element_W:
  assumes "check_element l c d i j x y N = Inr N'"
  shows "W (conv1 N') = W (conv1 N) \<and> W (conv2 N') = W (conv2 N)"
proof -
  from assms obtain g N5 loss N6 where
    1: "central_difference l c d i j x y N = Inr (g, N5)"
    and 2: "forward_cost N5 x y = Inr (loss, N6)"
    and 3: "model_backward N6 = Inr N'"
    by (auto simp: check_element_def split: sum.splits prod.splits option.splits if_splits)
  from central_difference_W[OF 1, of 0] central_difference_W[OF 1, of 1]
    forward_cost_W[OF 2] model_backward_W[OF 3]
  show ?thesis by (simp add: get_layer_def)
qed

lemma gradient_check_W:
  assumes "gradient_check x y N = Inr N'"
  shows "W (conv1 N') = W (conv1 N) \<and> W (conv2 N') = W (conv2 N)"
proof -
  let ?I = "\<lambda>t. W (conv1 t) = W (conv1 N) \<and> W (conv2 t) = W (conv2 N)"
  have el: "?I u'" if "check_element l c d i j x y u = Inr u'" "?I u" for l c d i j u u'
    using check_element_W[OF that(1)] that(2) by simp
  have l4: "?I u'" if "for_range js (\<lambda>j. check_element l c d i j x y) u = Inr u'" "?I u"
    for l c d i js u u'
    by (rule for_range_preserves[where I = ?I, OF that]) (rule el)
  have l3: "?I u'"
    if "for_range is (\<lambda>i. for_range js (\<lambda>j. check_element l c d i j x y)) u = Inr u'" "?I u"
    for l c d "is" js u u'
    by (rule for_range_preserves[where I = ?I, OF that]) (rule l4)
  have l2: "?I u'"
    if "for_range ds (\<lambda>d. for_range is (\<lambda>i. for_range js
          (\<lambda>j. check_element l c d i j x y))) u = Inr u'" "?I u"
    for l c ds "is" js u u'
    by (rule for_range_preserves[where I = ?I, OF that]) (rule l3)
  have l1: "?I u'"
    if "for_range cs (\<lambda>c. for_range ds (\<lambda>d. for_range is (\<lambda>i. for_range js
          (\<lambda>j. check_element l c d i j x y)))) u = Inr u'" "?I u"
    for l cs ds "is" js u u'
    by (rule for_range_preserves[where I = ?I, OF that]) (rule l2)
  have "?I N'"
  proof (rule for_range_preserves[where I = ?I, OF assms[unfolded gradient_check_def]])
    show "?I N" by simp
  next
    fix l u u'
    assume "(case dims4 (W (get_layer l u)) of (C, D, K1, K2) \<Rightarrow>
         for_range [0..<C] (\<lambda>c.
           for_range [0..<D] (\<lambda>d.
             for_range [0..<K1] (\<lambda>i.
               for_range [0..<K2] (\<lambda>j. check_element l c d i j x y)))) u) = Inr u'"
      and "?I u"
    then show "?I u'"
      by (cases "dims4 (W (get_layer l u))") (auto dest: l1)
  qed
  then show ?thesis .
qed

text \<open>
  Claim C8. The body of the innermost loop reads \<^verbatim>\<open>orig\<close>, assigns
  \<^verbatim>\<open>orig + epsilon\<close>, evaluates the cost, assigns \<^verbatim>\<open>orig - epsilon\<close>, evaluates the
  cost, and assigns \<^verbatim>\<open>orig\<close>. Whenever these steps complete for an element
  \<open>(c, d, i, j)\<close> of layer \<open>l\<close>, the weight tensors of both convolution layers equal
  their values before the perturbation. (\<open>check_element_W\<close> and \<open>gradient_check_W\<close>
  extend this to the rest of the loop body and to the whole check.)
\<close>

theorem central_difference_restores_weights:
  assumes "central_difference l c d i j x y N = Inr (g, N')"
  shows "W (conv1 N') = W (conv1 N) \<and> W (conv2 N') = W (conv2 N)"
  using central_difference_W[OF assms, of 0] central_difference_W[OF assms, of 1]
  by (simp add: get_layer_def)

text \<open>
  The theorem on a model of two 1x1 convolutions (weights 2 and 3) on a 2x2 image,
  perturbing the one weight of the first layer: the evaluation completes.
\<close>

theorem central_difference_restores_weights_witness:
  "\<exists>g N'. central_difference 0 0 0 0 0 \<lparr>dims3 = (1, 2, 2), data3 = [[[1, 2], [3, 4]]]\<rparr>
      \<lparr>dims3 = (1, 1, 1), data3 = [[[1]]]\<rparr>
      \<lparr>conv1 = \<lparr>kernelsize = 1, stride = 1, pad = 0, in_channels = 1, out_channels = 1,
        W = \<lparr>dims4 = (1, 1, 1, 1), data4 = [[[[2]]]]\<rparr>, cache = None, gradW = None\<rparr>,
      conv2 = \<lparr>kernelsize = 1, stride = 1, pad = 0, in_channels = 1, out_channels = 1,
        W = \<lparr>dims4 = (1, 1, 1, 1), data4 = [[[[3]]]]\<rparr>, cache = None, gradW = None\<rparr>,
      maxpool = \<lparr>mcache = None\<rparr>, rl1 = \<lparr>rcache = None\<rparr>, rl2 = \<lparr>rcache = None\<rparr>,
      l2 = \<lparr>lcache = None\<rparr>\<rparr> = Inr (g, N') \<and>
    W (conv1 N') = \<lparr>dims4 = (1, 1, 1, 1), data4 = [[[[2]]]]\<rparr> \<and>
    W (conv2 N') = \<lparr>dims4 = (1, 1, 1, 1), data4 = [[[[3]]]]\<rparr>"
proof -
  let ?N = "\<lparr>conv1 = \<lparr>kernelsize = 1, stride = 1, pad = 0, in_channels = 1, out_channels = 1,
        W = \<lparr>dims4 = (1, 1, 1, 1), data4 = [[[[2]]]]\<rparr>, cache = None, gradW = None\<rparr>,
      conv2 = \<lparr>kernelsize = 1, stride = 1, pad = 0, in_channels = 1, out_channels = 1,
        W = \<lparr>dims4 = (1, 1, 1, 1), data4 = [[[[3]]]]\<rparr>, cache = None, gradW = None\<rparr>,
      maxpool = \<lparr>mcache = None\<rparr>, rl1 = \<lparr>rcache = None\<rparr>, rl2 = \<lparr>rcache = None\<rparr>,
      l2 = \<lparr>lcache = None\<rparr>\<rparr>"
  let ?x = "\<lparr>dims3 = (1, 2, 2), data3 = [[[1, 2], [3, 4]]]\<rparr>"
  let ?y = "\<lparr>dims3 = (1, 1, 1), data3 = [[[1]]]\<rparr>"
  have "\<exists>g N'. central_difference 0 0 0 0 0 ?x ?y ?N = Inr (g, N')"
    by (simp add: central_difference_def getitem4_def setitem4_def set_weight_def in4_def
        forward_cost_def model_forward_def get_layer_def set_layer_def upd_at_def epsilon_def
        convLayer_call_def np_pad_def np_zeros3_def conv_pixel_def slice3_def slice_len_def
        np_mul43_def bdim_def bidx_def tab3_def tab4_def np_sum123_def iadd_col_def bto_def
        at3_def at4_def upt_conv_Cons ReLU_call_def MaxPool_call_def maxpool_window_def
        np_amax12_def set_col_def np_where_eq_def islice_set_def col3_def
        broadcast3_def np_sum3_def l2_call_def Let_def)
  then obtain g N' where r: "central_difference 0 0 0 0 0 ?x ?y ?N = Inr (g, N')"
    by blast
  from central_difference_restores_weights[OF r]
  have "W (conv1 N') = \<lparr>dims4 = (1, 1, 1, 1), data4 = [[[[2]]]]\<rparr> \<and>
    W (conv2 N') = \<lparr>dims4 = (1, 1, 1, 1), data4 = [[[[3]]]]\<rparr>"
    by simp
  with r show ?thesis by blast
qed

subsection \<open>Max pooling: the claims\<close>

lemma sum_window_single:
  fixes v :: real and a0 b0 :: nat
  assumes "a0 < 2" "b0 < 2"
  shows "(\<Sum>a<2. \<Sum>b<2. if a = a0 \<and> b = b0 then v else 0) = v"
proof -
  have "a0 = 0 \<or> a0 = 1" "b0 = 0 \<or> b0 = 1" using assms by auto
  then show ?thesis
    by (auto simp: lessThan_Suc eval_nat_numeral)
qed

text \<open>
  Whenever the forward call returns, the cache is the equality mask of the input: at
  every input element 1 when the element equals the maximum of its 2x2 window, else 0,
  so that all tied maxima are marked. On every input with even height and width the
  call returns (\<open>MaxPool_call_even\<close>).
\<close>

lemma MaxPool_call_mask:
  assumes "dims3 x = (D, H, Wd)" and "MaxPool_call M x = Inr (y, M1)"
  shows "\<exists>c. mcache M1 = Some c \<and> dims3 c = (D, H, Wd) \<and>
     (\<forall>d<D. \<forall>r<H. \<forall>q<Wd. at3 c d r q =
        (if at3 x d r q = win_max x d (r div 2) (q div 2) then 1 else 0))"
proof -
  from MaxPool_call_returned[OF assms] obtain c where
    "M1 = M\<lparr>mcache := Some c\<rparr>" "dims3 c = (D, H, Wd)"
    "\<forall>d<D. \<forall>r<H. \<forall>q<Wd. at3 c d r q = max_mask x d r q"
    by blast
  then show ?thesis
    by (auto simp: max_mask_def)
qed

text \<open>
  An input with an odd height or width and at least one element makes the call fail:
  the last window of a row or column is partial.
\<close>

lemma MaxPool_call_odd_fails:
  assumes x: "dims3 x = (D, H, Wd)" and odd: "odd H \<or> odd Wd" and ne: "0 < H" "0 < Wd"
  shows "\<exists>e. MaxPool_call M x = Inl e"
proof (cases "MaxPool_call M x")
  case (Inl e)
  then show ?thesis by blast
next
  case (Inr r)
  obtain y M1 where r: "r = (y, M1)" by (cases r)
  from MaxPool_call_returned[OF x Inr[unfolded r]]
  have full: "\<And>i j. i < (H + 1) div 2 \<Longrightarrow> j < (Wd + 1) div 2 \<Longrightarrow>
      2 * i + 2 \<le> H \<and> 2 * j + 2 \<le> Wd"
    by blast
  have "(H + 1) div 2 - 1 < (H + 1) div 2" "(Wd + 1) div 2 - 1 < (Wd + 1) div 2"
    using ne by auto
  from full[OF this] odd have False
    by (auto elim!: oddE)
  then show ?thesis ..
qed

text \<open>
  Claim C5 fails on the code for an input with an odd dimension. On a 2x3 image the
  window \<open>(0, 1)\<close> covers the one remaining column; its mask is built with shape
  \<open>(1, 2, 2)\<close> and cannot be assigned into the cache slice of shape \<open>(1, 2, 1)\<close>, so the
  call raises \<open>ValueError\<close> and no element of the third column is ever marked.
\<close>

theorem MaxPool_call_2x3_raises:
  "MaxPool_call \<lparr>mcache = None\<rparr> \<lparr>dims3 = (1, 2, 3), data3 = [[[1, 2, 3], [4, 5, 6]]]\<rparr>
     = Inl ValueError"
  by (simp add: MaxPool_call_def MaxPool_backward_def np_zeros3_def maxpool_window_def
        slice3_def slice_len_def np_amax12_def set_col_def np_where_eq_def col3_def islice_set_def
        islice_mul_def bto_def bdim_def bidx_def tab3_def at3_def upt_conv_Cons)

text \<open>
  Claim C7 fails on the code. On a 3x3 image the first window is processed and the
  second, a partial window of one column, raises \<open>ValueError\<close>: the call returns no
  tensor of shape \<open>(1, 2, 2)\<close>.
\<close>

theorem MaxPool_call_3x3_raises:
  "MaxPool_call \<lparr>mcache = None\<rparr>
     \<lparr>dims3 = (1, 3, 3), data3 = [[[1, 2, 3], [4, 5, 6], [7, 8, 9]]]\<rparr> = Inl ValueError"
  by (simp add: MaxPool_call_def MaxPool_backward_def np_zeros3_def maxpool_window_def
        slice3_def slice_len_def np_amax12_def set_col_def np_where_eq_def col3_def islice_set_def
        islice_mul_def bto_def bdim_def bidx_def tab3_def at3_def upt_conv_Cons)

text \<open>
  Claim C6. Let a forward call on an input of shape \<open>(D, H, Wd)\<close> return \<open>y\<close>, and let
  \<open>delta\<close> have the shape of \<open>y\<close>. Then \<^verbatim>\<open>backward\<close> returns a gradient \<open>g\<close> such that,
  for every channel \<open>d\<close> and every 2x2 window \<open>(i, j)\<close> of the input: when exactly one
  position \<open>(a0, b0)\<close> of the window holds the maximum, the sum of \<open>g\<close> over the window
  is \<open>delta[d,i,j]\<close>; and in every case \<open>g\<close> is \<open>delta[d,i,j]\<close> at each position that holds
  the maximum, all tied positions included, and 0 at the others.
\<close>

theorem MaxPool_backward_window:
  assumes x: "dims3 x = (D, H, Wd)"
    and fwd: "MaxPool_call M x = Inr (y, M1)"
    and dl: "dims3 delta = dims3 y"
    and idx: "d < D" "i < H div 2" "j < Wd div 2"
  shows "\<exists>g. MaxPool_backward M1 delta = Inr (g, M1\<lparr>mcache := Some g\<rparr>) \<and>
         ((\<exists>a0<2. \<exists>b0<2. \<forall>a<2. \<forall>b<2.
             (at3 x d (2 * i + a) (2 * j + b) = win_max x d i j) = (a = a0 \<and> b = b0)) \<longrightarrow>
          (\<Sum>a<2. \<Sum>b<2. at3 g d (2 * i + a) (2 * j + b)) = at3 delta d i j) \<and>
         (\<forall>a<2. \<forall>b<2. at3 g d (2 * i + a) (2 * j + b) =
            (if at3 x d (2 * i + a) (2 * j + b) = win_max x d i j then at3 delta d i j else 0))"
proof -
  let ?oh = "(H + 1) div 2" and ?ow = "(Wd + 1) div 2"
  from MaxPool_call_returned[OF x fwd] obtain c where
    M1: "M1 = M\<lparr>mcache := Some c\<rparr>" and dy: "dims3 y = (D, ?oh, ?ow)"
    and dc: "dims3 c = (D, H, Wd)"
    and c_at: "\<And>d r q. d < D \<Longrightarrow> r < H \<Longrightarrow> q < Wd \<Longrightarrow> at3 c d r q = max_mask x d r q"
    by blast
  have mc: "mcache M1 = Some c" by (simp add: M1)
  have dl': "dims3 delta = (D, ?oh, ?ow)" using dl dy by simp
  from MaxPool_backward_correct[OF mc dc dl'] obtain g where
    bwd: "MaxPool_backward M1 delta = Inr (g, M1\<lparr>mcache := Some g\<rparr>)"
    and g_at: "\<And>d r q. d < D \<Longrightarrow> r < H \<Longrightarrow> q < Wd \<Longrightarrow> at3 g d r q =
        (if r div 2 < ?oh \<and> q div 2 < ?ow then at3 c d r q * at3 delta d (r div 2) (q div 2)
         else at3 c d r q)"
    by blast
  have pos: "at3 g d (2 * i + a) (2 * j + b) =
      (if at3 x d (2 * i + a) (2 * j + b) = win_max x d i j then at3 delta d i j else 0)"
    if a: "a < 2" and b: "b < 2" for a b
  proof -
    have r: "2 * i + a < H" "(2 * i + a) div 2 = i" using idx(2) a by auto
    have q: "2 * j + b < Wd" "(2 * j + b) div 2 = j" using idx(3) b by auto
    have "i < ?oh" "j < ?ow" using idx by auto
    then show ?thesis
      using g_at[OF idx(1) r(1) q(1)] c_at[OF idx(1) r(1) q(1)]
      by (simp add: r(2) q(2) max_mask_def)
  qed
  have uniq: "(\<Sum>a<2. \<Sum>b<2. at3 g d (2 * i + a) (2 * j + b)) = at3 delta d i j"
    if u: "\<exists>a0<2. \<exists>b0<2. \<forall>a<2. \<forall>b<2.
             (at3 x d (2 * i + a) (2 * j + b) = win_max x d i j) = (a = a0 \<and> b = b0)"
  proof -
    from u obtain a0 b0 where ab: "a0 < 2" "b0 < 2"
      and only: "\<And>a b. a < 2 \<Longrightarrow> b < 2 \<Longrightarrow>
             (at3 x d (2 * i + a) (2 * j + b) = win_max x d i j) = (a = a0 \<and> b = b0)"
      by blast
    have "(\<Sum>a<2. \<Sum>b<2. at3 g d (2 * i + a) (2 * j + b)) =
          (\<Sum>a<2. \<Sum>b<2. if a = a0 \<and> b = b0 then at3 delta d i j else 0)"
      by (intro sum.cong refl) (simp add: pos only)
    also have "\<dots> = at3 delta d i j"
      by (rule sum_window_single[OF ab])
    finally show ?thesis .
  qed
  show ?thesis
    using bwd uniq pos by blast
qed

text \<open>
  The theorem on a 2x4 image. The first window \<open>1 2 / 3 4\<close> has its maximum at the
  one position \<open>(1, 1)\<close>: the gradient over it sums to \<open>delta[0,0,0] = 7\<close>. The second
  window \<open>5 5 / 5 0\<close> has three tied maxima: each holds \<open>delta[0,0,1] = 3\<close>.
\<close>

theorem MaxPool_backward_window_witness:
  "MaxPool_call \<lparr>mcache = None\<rparr> \<lparr>dims3 = (1, 2, 4), data3 = [[[1, 2, 5, 5], [3, 4, 5, 0]]]\<rparr> = Inr (\<lparr>dims3 = (1, 1, 2), data3 = [[[4, 5]]]\<rparr>, \<lparr>mcache = Some \<lparr>dims3 = (1, 2, 4), data3 = [[[0, 0, 1, 1], [0, 1, 1, 0]]]\<rparr>\<rparr>) \<and>
   (\<exists>g. MaxPool_backward \<lparr>mcache = Some \<lparr>dims3 = (1, 2, 4), data3 = [[[0, 0, 1, 1], [0, 1, 1, 0]]]\<rparr>\<rparr> \<lparr>dims3 = (1, 1, 2), data3 = [[[7, 3]]]\<rparr> = Inr (g, \<lparr>mcache = Some g\<rparr>) \<and>
      (\<Sum>a<2. \<Sum>b<2. at3 g 0 (2 * 0 + a) (2 * 0 + b)) = 7 \<and>
      at3 g 0 0 2 = 3 \<and> at3 g 0 0 3 = 3 \<and> at3 g 0 1 2 = 3 \<and> at3 g 0 1 3 = 0)"
proof -
  let ?x = "\<lparr>dims3 = (1, 2, 4), data3 = [[[1, 2, 5, 5], [3, 4, 5, 0]]]\<rparr>"
  let ?dl = "\<lparr>dims3 = (1, 1, 2), data3 = [[[7, 3]]]\<rparr>"
  let ?M1 = "\<lparr>mcache = Some \<lparr>dims3 = (1, 2, 4), data3 = [[[0, 0, 1, 1], [0, 1, 1, 0]]]\<rparr>\<rparr>"
  have f: "MaxPool_call \<lparr>mcache = None\<rparr> ?x = Inr (\<lparr>dims3 = (1, 1, 2), data3 = [[[4, 5]]]\<rparr>, ?M1)"
    by (simp add: MaxPool_call_def MaxPool_backward_def np_zeros3_def maxpool_window_def
        slice3_def slice_len_def np_amax12_def set_col_def np_where_eq_def col3_def islice_set_def
        islice_mul_def bto_def bdim_def bidx_def tab3_def at3_def upt_conv_Cons)
  have w: "win_max ?x 0 0 0 = 4" "win_max ?x 0 0 1 = 5"
    by (simp_all add: win_max_def at3_def)
  from MaxPool_backward_window[OF _ f, of 1 2 4 ?dl 0 0 0]
  obtain g where g: "MaxPool_backward ?M1 ?dl = Inr (g, ?M1\<lparr>mcache := Some g\<rparr>)"
    and u: "(\<exists>a0<2. \<exists>b0<2. \<forall>a<2. \<forall>b<2.
             (at3 ?x 0 (2 * 0 + a) (2 * 0 + b) = win_max ?x 0 0 0) = (a = a0 \<and> b = b0)) \<longrightarrow>
          (\<Sum>a<2. \<Sum>b<2. at3 g 0 (2 * 0 + a) (2 * 0 + b)) = at3 ?dl 0 0 0"
    by auto
  have "\<forall>a<2. \<forall>b<2. (at3 ?x 0 (2 * 0 + a) (2 * 0 + b) = win_max ?x 0 0 0) = (a = 1 \<and> b = 1)"
    unfolding w by (simp add: less_2_cases_iff at3_def)
  then have "\<exists>a0<2. \<exists>b0<2. \<forall>a<2. \<forall>b<2.
             (at3 ?x 0 (2 * 0 + a) (2 * 0 + b) = win_max ?x 0 0 0) = (a = a0 \<and> b = b0)"
    by (intro exI[of _ 1] conjI) simp_all
  with u have s: "(\<Sum>a<2. \<Sum>b<2. at3 g 0 (2 * 0 + a) (2 * 0 + b)) = 7"
    by (simp add: at3_def)
  from MaxPool_backward_window[OF _ f, of 1 2 4 ?dl 0 0 1] g
  have t: "\<forall>a<2. \<forall>b<2. at3 g 0 (2 * 0 + a) (2 * 1 + b) =
            (if at3 ?x 0 (2 * 0 + a) (2 * 1 + b) = win_max ?x 0 0 1 then at3 ?dl 0 0 1 else 0)"
    by auto
  have tied: "at3 g 0 0 2 = 3" "at3 g 0 0 3 = 3" "at3 g 0 1 2 = 3" "at3 g 0 1 3 = 0"
    using t[rule_format, of 0 0] t[rule_format, of 0 1] t[rule_format, of 1 0]
      t[rule_format, of 1 1]
    unfolding w by (simp_all add: at3_def)
  from g have "MaxPool_backward ?M1 ?dl = Inr (g, \<lparr>mcache = Some g\<rparr>)" by simp
  with f s tied show ?thesis by blast
qed

text \<open>
  Claim C10. For a layer whose cache \<open>c\<close> has shape \<open>(D, H, Wd)\<close> and a delta of shape
  \<open>(D, n, m)\<close>, \<^verbatim>\<open>backward\<close> returns the array \<open>g1\<close> that holds \<open>c\<close> with each 2x2 block
  multiplied by the corresponding delta entry, and the layer's cache is then \<open>g1\<close>
  itself, not \<open>c\<close>. A second call with a delta \<open>d2\<close> therefore multiplies the
  already-scaled values: it returns \<open>c\<close> times the first delta times \<open>d2\<close>.
\<close>

theorem MaxPool_backward_in_place:
  assumes M: "mcache M = Some c" and c: "dims3 c = (D, H, Wd)"
    and d1: "dims3 d1 = (D, n, m)" and d2: "dims3 d2 = (D, n, m)"
  shows "\<exists>g1 g2. MaxPool_backward M d1 = Inr (g1, M\<lparr>mcache := Some g1\<rparr>) \<and>
     dims3 g1 = (D, H, Wd) \<and>
     (\<forall>d<D. \<forall>i<n. \<forall>j<m. \<forall>r<H. \<forall>q<Wd. r div 2 = i \<and> q div 2 = j \<longrightarrow>
        at3 g1 d r q = at3 c d r q * at3 d1 d i j) \<and>
     MaxPool_backward (M\<lparr>mcache := Some g1\<rparr>) d2 = Inr (g2, M\<lparr>mcache := Some g2\<rparr>) \<and>
     (\<forall>d<D. \<forall>i<n. \<forall>j<m. \<forall>r<H. \<forall>q<Wd. r div 2 = i \<and> q div 2 = j \<longrightarrow>
        at3 g2 d r q = at3 c d r q * at3 d1 d i j * at3 d2 d i j)"
proof -
  from MaxPool_backward_correct[OF M c d1] obtain g1 where
    1: "MaxPool_backward M d1 = Inr (g1, M\<lparr>mcache := Some g1\<rparr>)" "dims3 g1 = (D, H, Wd)"
    and g1: "\<And>d r q. d < D \<Longrightarrow> r < H \<Longrightarrow> q < Wd \<Longrightarrow> at3 g1 d r q =
        (if r div 2 < n \<and> q div 2 < m then at3 c d r q * at3 d1 d (r div 2) (q div 2)
         else at3 c d r q)"
    by blast
  have M1: "mcache (M\<lparr>mcache := Some g1\<rparr>) = Some g1" by simp
  from MaxPool_backward_correct[OF M1 1(2) d2] obtain g2 where
    2: "MaxPool_backward (M\<lparr>mcache := Some g1\<rparr>) d2 = Inr (g2, M\<lparr>mcache := Some g2\<rparr>)"
    and g2: "\<And>d r q. d < D \<Longrightarrow> r < H \<Longrightarrow> q < Wd \<Longrightarrow> at3 g2 d r q =
        (if r div 2 < n \<and> q div 2 < m then at3 g1 d r q * at3 d2 d (r div 2) (q div 2)
         else at3 g1 d r q)"
    by auto
  have "at3 g1 d r q = at3 c d r q * at3 d1 d i j"
    if "d < D" "i < n" "j < m" "r < H" "q < Wd" "r div 2 = i \<and> q div 2 = j" for d i j r q
    using that g1[of d r q] by auto
  moreover have "at3 g2 d r q = at3 c d r q * at3 d1 d i j * at3 d2 d i j"
    if "d < D" "i < n" "j < m" "r < H" "q < Wd" "r div 2 = i \<and> q div 2 = j" for d i j r q
    using that g1[of d r q] g2[of d r q] by auto
  ultimately show ?thesis
    using 1 2 by blast
qed

text \<open>
  The theorem on the mask \<open>0 0 1 1 / 0 1 1 0\<close> with deltas \<open>(7, 3)\<close> and then
  \<open>(2, 10)\<close>: the first call leaves \<open>0 0 3 3 / 0 7 3 0\<close> in the cache, the second returns
  \<open>0 0 30 30 / 0 14 30 0\<close>.
\<close>

theorem MaxPool_backward_in_place_witness:
  "MaxPool_backward \<lparr>mcache = Some \<lparr>dims3 = (1, 2, 4), data3 = [[[0, 0, 1, 1], [0, 1, 1, 0]]]\<rparr>\<rparr> \<lparr>dims3 = (1, 1, 2), data3 = [[[7, 3]]]\<rparr> =
     Inr (\<lparr>dims3 = (1, 2, 4), data3 = [[[0, 0, 3, 3], [0, 7, 3, 0]]]\<rparr>,
          \<lparr>mcache = Some \<lparr>dims3 = (1, 2, 4), data3 = [[[0, 0, 3, 3], [0, 7, 3, 0]]]\<rparr>\<rparr>) \<and>
   (\<exists>g1 g2. MaxPool_backward \<lparr>mcache = Some \<lparr>dims3 = (1, 2, 4), data3 = [[[0, 0, 1, 1], [0, 1, 1, 0]]]\<rparr>\<rparr> \<lparr>dims3 = (1, 1, 2), data3 = [[[7, 3]]]\<rparr> = Inr (g1, \<lparr>mcache = Some g1\<rparr>) \<and>
      MaxPool_backward \<lparr>mcache = Some g1\<rparr> \<lparr>dims3 = (1, 1, 2), data3 = [[[2, 10]]]\<rparr> = Inr (g2, \<lparr>mcache = Some g2\<rparr>) \<and>
      at3 g1 0 1 1 = 7 \<and> at3 g2 0 1 1 = 14 \<and> at3 g2 0 0 2 = 30)"
proof -
  let ?M = "\<lparr>mcache = Some \<lparr>dims3 = (1, 2, 4), data3 = [[[0, 0, 1, 1], [0, 1, 1, 0]]]\<rparr>\<rparr>"
  have e: "MaxPool_backward ?M \<lparr>dims3 = (1, 1, 2), data3 = [[[7, 3]]]\<rparr> =
     Inr (\<lparr>dims3 = (1, 2, 4), data3 = [[[0, 0, 3, 3], [0, 7, 3, 0]]]\<rparr>,
          \<lparr>mcache = Some \<lparr>dims3 = (1, 2, 4), data3 = [[[0, 0, 3, 3], [0, 7, 3, 0]]]\<rparr>\<rparr>)"
    by (simp add: MaxPool_call_def MaxPool_backward_def np_zeros3_def maxpool_window_def
        slice3_def slice_len_def np_amax12_def set_col_def np_where_eq_def col3_def islice_set_def
        islice_mul_def bto_def bdim_def bidx_def tab3_def at3_def upt_conv_Cons)
  from MaxPool_backward_in_place[of ?M "\<lparr>dims3 = (1, 2, 4), data3 = [[[0, 0, 1, 1], [0, 1, 1, 0]]]\<rparr>" 1 2 4 "\<lparr>dims3 = (1, 1, 2), data3 = [[[7, 3]]]\<rparr>" 1 2 "\<lparr>dims3 = (1, 1, 2), data3 = [[[2, 10]]]\<rparr>"]
  obtain g1 g2 where 1: "MaxPool_backward ?M \<lparr>dims3 = (1, 1, 2), data3 = [[[7, 3]]]\<rparr> = Inr (g1, ?M\<lparr>mcache := Some g1\<rparr>)"
    and 2: "MaxPool_backward (?M\<lparr>mcache := Some g1\<rparr>) \<lparr>dims3 = (1, 1, 2), data3 = [[[2, 10]]]\<rparr> = Inr (g2, ?M\<lparr>mcache := Some g2\<rparr>)"
    and g1: "\<forall>d<1. \<forall>i<1. \<forall>j<2. \<forall>r<2. \<forall>q<4. r div 2 = i \<and> q div 2 = j \<longrightarrow>
        at3 g1 d r q = at3 \<lparr>dims3 = (1, 2, 4), data3 = [[[0, 0, 1, 1], [0, 1, 1, 0]]]\<rparr> d r q * at3 \<lparr>dims3 = (1, 1, 2), data3 = [[[7, 3]]]\<rparr> d i j"
    and g2: "\<forall>d<1. \<forall>i<1. \<forall>j<2. \<forall>r<2. \<forall>q<4. r div 2 = i \<and> q div 2 = j \<longrightarrow>
        at3 g2 d r q = at3 \<lparr>dims3 = (1, 2, 4), data3 = [[[0, 0, 1, 1], [0, 1, 1, 0]]]\<rparr> d r q * at3 \<lparr>dims3 = (1, 1, 2), data3 = [[[7, 3]]]\<rparr> d i j * at3 \<lparr>dims3 = (1, 1, 2), data3 = [[[2, 10]]]\<rparr> d i j"
    by auto
  have v: "at3 g1 0 1 1 = 7" "at3 g2 0 1 1 = 14" "at3 g2 0 0 2 = 30"
    using g1[rule_format, of 0 0 0 1 1] g2[rule_format, of 0 0 0 1 1]
      g2[rule_format, of 0 0 1 0 2]
    by (simp_all add: at3_def)
  from 1 2 have "MaxPool_backward ?M \<lparr>dims3 = (1, 1, 2), data3 = [[[7, 3]]]\<rparr> = Inr (g1, \<lparr>mcache = Some g1\<rparr>)"
    "MaxPool_backward \<lparr>mcache = Some g1\<rparr> \<lparr>dims3 = (1, 1, 2), data3 = [[[2, 10]]]\<rparr> = Inr (g2, \<lparr>mcache = Some g2\<rparr>)"
    by simp_all
  with e v show ?thesis by blast
qed

subsection \<open>Backward before forward\<close>

text \<open>
  Claim C9, as far as the code supports it. With the cache absent (\<^verbatim>\<open>None\<close>, as the
  constructors leave it), \<^verbatim>\<open>backward\<close> of the convolution layer and of the
  max-pooling layer raise Python's \<open>AttributeError\<close>, from reading \<^verbatim>\<open>.shape\<close> of
  \<^verbatim>\<open>None\<close>, whatever the delta; the ReLU raises \<open>TypeError\<close>; the loss raises nothing
  and returns \<^verbatim>\<open>None\<close>.
\<close>

theorem backward_without_cache:
  assumes "cache L = None" and "mcache M = None" and "rcache R = None" and "lcache S = None"
  shows "convLayer_backward L delta = Inl AttributeError \<and>
     MaxPool_backward M d = Inl AttributeError \<and>
     ReLU_backward R y = Inl TypeError \<and>
     l2_backward S = None"
  using assms
  by (simp add: convLayer_backward_def MaxPool_backward_def ReLU_backward_def l2_backward_def
      split: prod.splits)

text \<open>The theorem on freshly constructed layers.\<close>

theorem backward_without_cache_witness:
  "cache (convLayer_init 3 1 1 1 1 (\<lambda>c d r q. 1)) = None \<and> mcache MaxPool_init = None \<and>
   convLayer_backward (convLayer_init 3 1 1 1 1 (\<lambda>c d r q. 1)) \<lparr>dims3 = (1, 1, 1), data3 = [[[1]]]\<rparr> = Inl AttributeError \<and>
   MaxPool_backward MaxPool_init \<lparr>dims3 = (1, 1, 1), data3 = [[[1]]]\<rparr> = Inl AttributeError \<and>
   ReLU_backward \<lparr>rcache = None\<rparr> \<lparr>dims3 = (1, 1, 1), data3 = [[[1]]]\<rparr> = Inl TypeError \<and>
   l2_backward \<lparr>lcache = None\<rparr> = None"
  using backward_without_cache[of "convLayer_init 3 1 1 1 1 (\<lambda>c d r q. 1)" MaxPool_init
      "\<lparr>rcache = None\<rparr>" "\<lparr>lcache = None\<rparr>" "\<lparr>dims3 = (1, 1, 1), data3 = [[[1]]]\<rparr>" "\<lparr>dims3 = (1, 1, 1), data3 = [[[1]]]\<rparr>" "\<lparr>dims3 = (1, 1, 1), data3 = [[[1]]]\<rparr>"]
  by (simp add: convLayer_init_def MaxPool_init_def)

text \<open>
  Claim C9 as stated names the exception \<open>StateError\<close>. A convolution layer and a
  max-pooling layer that were never called raise \<open>AttributeError\<close> instead.
\<close>

theorem backward_without_cache_not_StateError:
  "convLayer_backward \<lparr>kernelsize = 3, stride = 1, pad = 1, in_channels = 1, out_channels = 1,
      W = \<lparr>dims4 = (1, 1, 3, 3), data4 = [[[[1, 0, 1], [2, 0, 2], [1, 0, 1]]]]\<rparr>,
      cache = None, gradW = None\<rparr> \<lparr>dims3 = (1, 1, 1), data3 = [[[1]]]\<rparr> = Inl AttributeError \<and>
   convLayer_backward \<lparr>kernelsize = 3, stride = 1, pad = 1, in_channels = 1, out_channels = 1,
      W = \<lparr>dims4 = (1, 1, 3, 3), data4 = [[[[1, 0, 1], [2, 0, 2], [1, 0, 1]]]]\<rparr>,
      cache = None, gradW = None\<rparr> \<lparr>dims3 = (1, 1, 1), data3 = [[[1]]]\<rparr> \<noteq> Inl StateError \<and>
   MaxPool_backward \<lparr>mcache = None\<rparr> \<lparr>dims3 = (1, 1, 1), data3 = [[[1]]]\<rparr> = Inl AttributeError \<and>
   MaxPool_backward \<lparr>mcache = None\<rparr> \<lparr>dims3 = (1, 1, 1), data3 = [[[1]]]\<rparr> \<noteq> Inl StateError"
  by (simp add: convLayer_backward_def MaxPool_backward_def)

end
